theory Spec2Isabelle
  imports Complex_Main "HOL-Library.Multiset" "HOL-Library.Word"
begin

section \<open>Scenic quality: model of \<open>natcap/invest/scenic_quality/scenic_quality.py\<close>\<close>

text \<open>
  Raster blocks are numpy arrays. A block is modelled as the list of its pixels in
  row-major order (the order in which numpy's boolean-mask indexing visits them), a
  float64 or float32 sample as a \<open>real\<close> (rounding is not modelled), and a boolean mask
  as a \<open>bool list\<close> of the same length. numpy refuses operands whose shapes differ; the
  functions below are only meant for arrays of one shape, and the theorems say so.
\<close>

subsection \<open>Constants\<close>

definition VALUATION_NODATA :: real where
  "VALUATION_NODATA = - 99999"

definition BYTE_NODATA :: int where
  "BYTE_NODATA = 255"

datatype py_error =
    ValueError
  | NameError
  | ZeroDivisionError
  | IndexError
  | OSError
  | OtherError

subsection \<open>numpy array operations\<close>

text \<open>\<open>a & b\<close> and \<open>~a\<close> on boolean arrays.\<close>

definition mask_and :: "bool list \<Rightarrow> bool list \<Rightarrow> bool list" where
  "mask_and m1 m2 = map2 (\<and>) m1 m2"

definition mask_not :: "bool list \<Rightarrow> bool list" where
  "mask_not m = map Not m"

text \<open>\<open>xs[m]\<close>: the values of \<open>xs\<close> where the mask is set, in order.\<close>

fun np_take :: "'a list \<Rightarrow> bool list \<Rightarrow> 'a list" where
  "np_take (x # xs) (b # bs) = (if b then x # np_take xs bs else np_take xs bs)"
| "np_take _ _ = []"

text \<open>\<open>xs[m] = vs\<close> for an array \<open>vs\<close> holding one value for every set position.\<close>

fun np_put :: "'a list \<Rightarrow> bool list \<Rightarrow> 'a list \<Rightarrow> 'a list" where
  "np_put (x # xs) (b # bs) vs =
     (if b then (case vs of [] \<Rightarrow> x # np_put xs bs [] | v # vs' \<Rightarrow> v # np_put xs bs vs')
      else x # np_put xs bs vs)"
| "np_put xs _ _ = xs"

text \<open>\<open>xs[m] = c\<close> for a scalar \<open>c\<close>.\<close>

fun np_fill :: "'a list \<Rightarrow> bool list \<Rightarrow> 'a \<Rightarrow> 'a list" where
  "np_fill (x # xs) (b # bs) c = (if b then c else x) # np_fill xs bs c"
| "np_fill xs _ _ = xs"

text \<open>\<open>xs[m] += vs\<close>.\<close>

definition np_add_at :: "real list \<Rightarrow> bool list \<Rightarrow> real list \<Rightarrow> real list" where
  "np_add_at xs m vs = np_put xs m (map2 (+) (np_take xs m) vs)"

subsection \<open>Valuation of one viewshed (\<open>_calculate_valuation\<close>)\<close>

record coefficients =
  coef_a :: real
  coef_b :: real

text \<open>The three closures \<open>_valuation(distance, visibility)\<close>.\<close>

definition valuation_linear ::
  "coefficients \<Rightarrow> real \<Rightarrow> real list \<Rightarrow> real list \<Rightarrow> real list" where
  "valuation_linear c weight distance visibility =
     (let valid_pixels = map (\<lambda>v. v > 0) visibility;
          valuation = replicate (length distance) 0;
          x = np_take distance valid_pixels
      in np_put valuation valid_pixels
           (map2 (\<lambda>x v. (coef_a c + coef_b c * x) * (weight * v))
              x (np_take visibility valid_pixels)))"

definition valuation_logarithmic ::
  "coefficients \<Rightarrow> real \<Rightarrow> real list \<Rightarrow> real list \<Rightarrow> real list" where
  "valuation_logarithmic c weight distance visibility =
     (let valid_pixels = mask_and (map (\<lambda>v. v > 0) visibility) (map (\<lambda>d. d > 0) distance);
          valuation = replicate (length distance) 0
      in np_put valuation valid_pixels
           (map2 (\<lambda>d v. (coef_a c + coef_b c * ln d) * (weight * v))
              (np_take distance valid_pixels) (np_take visibility valid_pixels)))"

definition valuation_exponential ::
  "coefficients \<Rightarrow> real \<Rightarrow> real list \<Rightarrow> real list \<Rightarrow> real list" where
  "valuation_exponential c weight distance visibility =
     (let valid_pixels = map (\<lambda>v. v > 0) visibility;
          valuation = replicate (length distance) 0
      in np_put valuation valid_pixels
           (map2 (\<lambda>d v. (coef_a c * exp (- coef_b c * d)) * (weight * v))
              (np_take distance valid_pixels) (np_take visibility valid_pixels)))"

text \<open>\<open>str.lower()\<close> on an ASCII string.\<close>

definition lower_char :: "char \<Rightarrow> char" where
  "lower_char ch =
     (let n = (of_char ch :: nat) in if 65 \<le> n \<and> n \<le> 90 then char_of (n + 32) else ch)"

definition lower :: "string \<Rightarrow> string" where
  "lower s = map lower_char s"

text \<open>
  The \<open>if\<close>/\<open>elif\<close> chain that binds \<open>_valuation\<close>. With any other method name no
  closure is bound, and the first call of \<open>_valuation\<close> raises \<open>NameError\<close>.
\<close>

definition select_valuation ::
  "string \<Rightarrow> coefficients \<Rightarrow> real \<Rightarrow> (real list \<Rightarrow> real list \<Rightarrow> real list) option" where
  "select_valuation valuation_method c weight =
     (let m = lower valuation_method in
      if m = ''linear'' then Some (valuation_linear c weight)
      else if m = ''logarithmic'' then Some (valuation_logarithmic c weight)
      else if m = ''exponential'' then Some (valuation_exponential c weight)
      else None)"

text \<open>
  What \<open>get_raster_info\<close> and the spatial reference give for the visibility raster:
  the six geotransform terms, the mean pixel size, the linear units of the projection
  and the no-data value.
\<close>

record raster_info =
  geotransform :: "real list"
  mean_pixel_size :: real
  linear_units :: real
  nodata_value :: real

record block_info =
  xoff :: nat
  yoff :: nat
  win_xsize :: nat
  win_ysize :: nat

text \<open>Python's \<open>int(x)\<close> on a float truncates towards zero.\<close>

definition py_int :: "real \<Rightarrow> int" where
  "py_int x = (if 0 \<le> x then \<lfloor>x\<rfloor> else \<lceil>x\<rceil>)"

text \<open>
  \<open>numpy.linspace(off, off + n - 1, n)\<close> is \<open>off, off + 1, ..., off + n - 1\<close>, and
  \<open>numpy.meshgrid(x_coord, y_coord)\<close> repeats the x coordinates in every row and the y
  coordinate along each row. Both matrices are kept in row-major order.
\<close>

definition linspace :: "nat \<Rightarrow> nat \<Rightarrow> real list" where
  "linspace off n = map real [off ..< off + n]"

definition meshgrid_x :: "real list \<Rightarrow> real list \<Rightarrow> real list" where
  "meshgrid_x x_coord y_coord = concat (map (\<lambda>y. x_coord) y_coord)"

definition meshgrid_y :: "real list \<Rightarrow> real list \<Rightarrow> real list" where
  "meshgrid_y x_coord y_coord = concat (map (\<lambda>y. map (\<lambda>x. y) x_coord) y_coord)"

definition hypot :: "real \<Rightarrow> real \<Rightarrow> real" where
  "hypot x y = sqrt (x\<^sup>2 + y\<^sup>2)"

definition dist_in_m :: "int \<Rightarrow> int \<Rightarrow> real \<Rightarrow> block_info \<Rightarrow> real list" where
  "dist_in_m ix_viewpoint iy_viewpoint pixel_size_in_m bi =
     (let x_coord = linspace (xoff bi) (win_xsize bi);
          y_coord = linspace (yoff bi) (win_ysize bi);
          ix_matrix = meshgrid_x x_coord y_coord;
          iy_matrix = meshgrid_y x_coord y_coord
      in map2 (\<lambda>ix iy. hypot \<bar>ix - real_of_int ix_viewpoint\<bar> \<bar>iy - real_of_int iy_viewpoint\<bar>
                          * pixel_size_in_m)
           ix_matrix iy_matrix)"

text \<open>The body of the loop over the blocks of the visibility raster.\<close>

definition valuation_block ::
  "(real list \<Rightarrow> real list \<Rightarrow> real list) \<Rightarrow> real \<Rightarrow> real \<Rightarrow> real list \<Rightarrow> real list
     \<Rightarrow> real list" where
  "valuation_block valuation max_valuation_radius vis_nodata dist_block vis_block =
     (let visibility_value = replicate (length vis_block) VALUATION_NODATA;
          valid_distances = map (\<lambda>d. d \<le> max_valuation_radius) dist_block;
          nodata = map (\<lambda>v. v = vis_nodata) vis_block;
          valid_indexes = mask_and valid_distances (mask_not nodata);
          visibility_value = np_put visibility_value valid_indexes
            (valuation (np_take dist_block valid_indexes) (np_take vis_block valid_indexes));
          visibility_value = np_fill visibility_value
            (mask_and (mask_not valid_distances) (mask_not nodata)) 0
      in visibility_value)"

text \<open>
  \<open>_calculate_valuation\<close>: the blocks written to the valuation raster, one for every
  block of the visibility raster. The divisions by the pixel width and height raise
  \<open>ZeroDivisionError\<close> before the loop; an unbound \<open>_valuation\<close> raises inside the first
  iteration.
\<close>

definition calculate_valuation ::
  "raster_info \<Rightarrow> (block_info \<times> real list) list \<Rightarrow> real \<times> real \<Rightarrow> real \<Rightarrow> string
     \<Rightarrow> coefficients \<Rightarrow> real \<Rightarrow> py_error + real list list" where
  "calculate_valuation vis_raster_info blocks viewpoint weight valuation_method
       valuation_coefficients max_valuation_radius =
     (let vis_gt = geotransform vis_raster_info in
      if vis_gt ! 5 = 0 \<or> vis_gt ! 1 = 0 then Inl ZeroDivisionError
      else
        let iy_viewpoint = py_int ((snd viewpoint - vis_gt ! 3) / vis_gt ! 5);
            ix_viewpoint = py_int ((fst viewpoint - vis_gt ! 0) / vis_gt ! 1);
            pixel_size_in_m = mean_pixel_size vis_raster_info * linear_units vis_raster_info;
            vis_nodata = nodata_value vis_raster_info
        in if blocks = [] then Inr []
           else case select_valuation valuation_method valuation_coefficients weight of
             None \<Rightarrow> Inl NameError
           | Some valuation \<Rightarrow>
               Inr (map (\<lambda>(bi, vis_block).
                       valuation_block valuation max_valuation_radius vis_nodata
                         (dist_in_m ix_viewpoint iy_viewpoint pixel_size_in_m bi) vis_block)
                     blocks))"

text \<open>The ground distance of pixel \<open>i\<close> of a block to the viewpoint, as the loop computes it.\<close>

definition pixel_distance :: "raster_info \<Rightarrow> real \<times> real \<Rightarrow> block_info \<Rightarrow> nat \<Rightarrow> real" where
  "pixel_distance vis_raster_info viewpoint bi i =
     dist_in_m (py_int ((fst viewpoint - geotransform vis_raster_info ! 0)
                          / geotransform vis_raster_info ! 1))
               (py_int ((snd viewpoint - geotransform vis_raster_info ! 3)
                          / geotransform vis_raster_info ! 5))
               (mean_pixel_size vis_raster_info * linear_units vis_raster_info) bi ! i"

subsection \<open>Sum of the valuation rasters (\<open>_sum_valuation_rasters\<close>)\<close>

text \<open>The \<open>for\<close> loop of \<open>_sum_rasters\<close> over the valuation blocks.\<close>

fun sum_rasters_loop :: "bool list \<Rightarrow> real list \<Rightarrow> real list list \<Rightarrow> real list" where
  "sum_rasters_loop valid_dem_pixels raster_sum [] = raster_sum"
| "sum_rasters_loop valid_dem_pixels raster_sum (valuation_matrix # rest) =
     (let valid_pixels = mask_and (map (\<lambda>v. v \<noteq> VALUATION_NODATA) valuation_matrix)
                           valid_dem_pixels
      in sum_rasters_loop valid_dem_pixels
           (np_add_at raster_sum valid_pixels (np_take valuation_matrix valid_pixels)) rest)"

definition sum_rasters :: "real \<Rightarrow> real list \<Rightarrow> real list list \<Rightarrow> real list" where
  "sum_rasters dem_nodata dem valuation_rasters =
     (let valid_dem_pixels = map (\<lambda>d. d \<noteq> dem_nodata) dem;
          raster_sum = replicate (length dem) VALUATION_NODATA;
          raster_sum = np_fill raster_sum valid_dem_pixels 0
      in sum_rasters_loop valid_dem_pixels raster_sum valuation_rasters)"

text \<open>
  \<open>raster_calculator\<close> calls the local operation on every block of the aligned rasters:
  a block of the DEM together with the same block of every valuation raster.
\<close>

definition sum_valuation_rasters ::
  "real \<Rightarrow> (real list \<times> real list list) list \<Rightarrow> real list list" where
  "sum_valuation_rasters dem_nodata blocks =
     map (\<lambda>(dem, valuation_rasters). sum_rasters dem_nodata dem valuation_rasters) blocks"

subsection \<open>Weighted count of visible structures (\<open>_count_visible_structures\<close>)\<close>

definition target_nodata :: real where
  "target_nodata = - 1"

text \<open>The inner loop over \<open>izip(vis_raster_bands, weights)\<close>, which stops with the shorter list.\<close>

fun visibility_loop :: "bool list \<Rightarrow> real list \<Rightarrow> (real list \<times> real) list \<Rightarrow> real list" where
  "visibility_loop valid_mask visibility_sum [] = visibility_sum"
| "visibility_loop valid_mask visibility_sum ((visibility_matrix, weight) # rest) =
     (let visible_mask = mask_and (map (\<lambda>v. v = 1) visibility_matrix) valid_mask
      in visibility_loop valid_mask
           (np_add_at visibility_sum visible_mask
              (map (\<lambda>v. v * weight) (np_take visibility_matrix visible_mask))) rest)"

definition count_visible_block ::
  "real \<Rightarrow> real list \<Rightarrow> block_info \<Rightarrow> real list \<Rightarrow> real list list \<Rightarrow> real list" where
  "count_visible_block dem_nodata weights bi dem_matrix visibility_matrices =
     (let visibility_sum = replicate (win_ysize bi * win_xsize bi) 0;
          valid_mask = map (\<lambda>d. d \<noteq> dem_nodata) dem_matrix;
          visibility_sum = np_fill visibility_sum (mask_not valid_mask) target_nodata
      in visibility_loop valid_mask visibility_sum (zip visibility_matrices weights))"

text \<open>
  The loop over the blocks of the clipped DEM; each block comes with the same window of
  every visibility raster (\<open>ReadAsArray(**block_info)\<close>).
\<close>

definition count_visible_structures ::
  "real \<Rightarrow> real list \<Rightarrow> (block_info \<times> real list \<times> real list list) list \<Rightarrow> real list list" where
  "count_visible_structures dem_nodata weights blocks =
     map (\<lambda>(bi, dem_matrix, visibility_matrices).
            count_visible_block dem_nodata weights bi dem_matrix visibility_matrices) blocks"

subsection \<open>Percentile classification (\<open>_map_percentiles\<close>)\<close>

text \<open>
  \<open>numpy.digitize(x, bins)\<close> with increasing \<open>bins\<close> and \<open>right=False\<close> returns, for every
  value, the index \<open>i\<close> with \<open>bins[i-1] <= x < bins[i]\<close>: the position found by
  \<open>searchsorted(bins, x, side='right')\<close>, that is the length of the longest prefix of
  \<open>bins\<close> whose entries are at most \<open>x\<close>.
\<close>

definition digitize :: "real list \<Rightarrow> real list \<Rightarrow> nat list" where
  "digitize xs bins = map (\<lambda>x. length (takeWhile (\<lambda>b. b \<le> x) bins)) xs"

text \<open>
  The array \<open>visual_quality\<close> has eight-bit items. Storing 255 in a \<open>numpy.int8\<close> item
  keeps the bit pattern \<open>0xFF\<close>, which the byte raster written from it reads as 255:
  the items are modelled as \<open>8 word\<close>.
\<close>

definition map_percentiles :: "real \<Rightarrow> real list \<Rightarrow> real list \<Rightarrow> 8 word list" where
  "map_percentiles raster_nodata percentile_bins valuation_matrix =
     (let nonzero = map (\<lambda>v. v \<noteq> 0) valuation_matrix;
          nodata = map (\<lambda>v. v = raster_nodata) valuation_matrix;
          valid_indexes = mask_and (mask_not nodata) nonzero;
          visual_quality = replicate (length valuation_matrix) (word_of_int BYTE_NODATA);
          visual_quality = np_fill visual_quality (mask_and (mask_not nonzero) (mask_not nodata)) 0;
          visual_quality = np_put visual_quality valid_indexes
            (map word_of_nat (digitize (np_take valuation_matrix valid_indexes) percentile_bins))
      in visual_quality)"

subsection \<open>Percentile breakpoints (phase 1 of \<open>_calculate_visual_quality\<close>)\<close>

text \<open>\<open>block[(block != raster_nodata) & (block != 0)]\<close>.\<close>

definition eligible_pixels :: "real \<Rightarrow> real list \<Rightarrow> real list" where
  "eligible_pixels raster_nodata block =
     np_take block (mask_and (map (\<lambda>v. v \<noteq> raster_nodata) block) (map (\<lambda>v. v \<noteq> 0) block))"

text \<open>
  The loop over the blocks of the source raster. Every block with an eligible pixel is
  sorted and saved to a file of its own (\<open>tmp_offset_<n_elements>.npy\<close>); the iterator
  made for the file yields the saved values in order, so that a run is modelled by the
  sorted list itself.
\<close>

fun spill_runs :: "real \<Rightarrow> real list list \<Rightarrow> nat \<Rightarrow> real list list \<Rightarrow> nat \<times> real list list" where
  "spill_runs raster_nodata [] n_elements iterators = (n_elements, iterators)"
| "spill_runs raster_nodata (block # blocks) n_elements iterators =
     (let valid_pixels = eligible_pixels raster_nodata block in
      if length valid_pixels = 0 then spill_runs raster_nodata blocks n_elements iterators
      else spill_runs raster_nodata blocks (n_elements + length valid_pixels)
             (iterators @ [sort valid_pixels]))"

text \<open>
  \<open>heapq.merge(*iterators)\<close>: exhausted runs are dropped, and the next value is the least
  of the heads of the others, the earlier run winning a tie.
\<close>

fun least_run :: "real list list \<Rightarrow> nat" where
  "least_run [] = 0"
| "least_run [r] = 0"
| "least_run (r # rs) = (let j = least_run rs in if hd r \<le> hd (rs ! j) then 0 else Suc j)"

function kway_merge :: "real list list \<Rightarrow> real list" where
  "kway_merge runs =
     (let live = filter (\<lambda>r. r \<noteq> []) runs in
      if live = [] then []
      else let j = least_run live in hd (live ! j) # kway_merge (live[j := tl (live ! j)]))"
  by pat_completeness auto
termination
proof (relation "measure (\<lambda>runs. sum_list (map length runs))")
  show "wf (measure (\<lambda>runs. sum_list (map length runs)))" by simp
next
  fix runs :: "real list list" and live j
  assume live: "live = filter (\<lambda>r. r \<noteq> []) runs" and ne: "live \<noteq> []"
    and j: "j = least_run live"
  have "rs \<noteq> [] \<Longrightarrow> least_run rs < length rs" for rs
    by (induction rs rule: least_run.induct) (auto simp: Let_def)
  then have jl: "j < length live" using ne j by simp
  then have "live ! j \<in> set live" by simp
  then have "live ! j \<noteq> []" unfolding live by simp
  then obtain x xs where c: "live ! j = x # xs" by (cases "live ! j") auto
  have "length (live ! j) \<le> sum_list (map length live)"
    using jl by (simp add: member_le_sum_list)
  then have "Suc (length xs) \<le> sum_list (map length live)" by (simp add: c)
  moreover have "sum_list (map length (live[j := tl (live ! j)])) =
                 sum_list (map length live) + length xs - Suc (length xs)"
    using jl by (simp add: map_update sum_list_update c)
  ultimately have "sum_list (map length (live[j := tl (live ! j)])) < sum_list (map length live)"
    by linarith
  also have "\<dots> \<le> sum_list (map length runs)"
    unfolding live by (induction runs) auto
  finally show "(live[j := tl (live ! j)], runs) \<in> measure (\<lambda>runs. sum_list (map length runs))"
    by simp
qed

declare kway_merge.simps [simp del]

text \<open>\<open>[math.ceil(n*n_elements) for n in (0.0, 0.25, 0.50, 0.75)]\<close>.\<close>

definition rank_ordinals_of :: "nat \<Rightarrow> nat list" where
  "rank_ordinals_of n_elements =
     map (\<lambda>n :: real. nat \<lceil>n * real n_elements\<rceil>) [0, 1 / 4, 1 / 2, 3 / 4]"

text \<open>
  The loop over the merged values. \<open>popleft\<close> on the empty deque raises \<open>IndexError\<close>,
  which ends the loop.
\<close>

fun percentile_loop :: "real list \<Rightarrow> nat \<Rightarrow> nat \<Rightarrow> nat list \<Rightarrow> real list \<Rightarrow> real list" where
  "percentile_loop [] current_index next_percentile_ordinal rank_ordinals percentile_values =
     percentile_values"
| "percentile_loop (v # rest) current_index next_percentile_ordinal rank_ordinals
       percentile_values =
     (if current_index = next_percentile_ordinal then
        (case rank_ordinals of
           [] \<Rightarrow> percentile_values @ [v]
         | r # rank_ordinals' \<Rightarrow>
             percentile_loop rest (current_index + 1) r rank_ordinals' (percentile_values @ [v]))
      else percentile_loop rest (current_index + 1) next_percentile_ordinal rank_ordinals
             percentile_values)"

definition percentile_breakpoints :: "real \<Rightarrow> real list list \<Rightarrow> real list" where
  "percentile_breakpoints raster_nodata blocks =
     (case spill_runs raster_nodata blocks 0 [] of
        (n_elements, iterators) \<Rightarrow>
          let rank_ordinals = rank_ordinals_of n_elements
          in percentile_loop (kway_merge iterators) 0 (hd rank_ordinals) (tl rank_ordinals) [])"

text \<open>
  The cross-check of the specification, in its words: the whole eligible population is
  sorted in memory and the value at each rank \<open>ceil(q * N)\<close> is picked; a rank outside
  the population is an \<open>IndexError\<close>.
\<close>

definition in_memory_breakpoints :: "real \<Rightarrow> real list list \<Rightarrow> (py_error + real) list" where
  "in_memory_breakpoints raster_nodata blocks =
     (let population = sort (concat (map (eligible_pixels raster_nodata) blocks))
      in map (\<lambda>r. if r < length population then Inr (population ! r) else Inl IndexError)
           (rank_ordinals_of (length population)))"

subsection \<open>Viewpoints and the DEM (\<open>_viewpoint_within_raster\<close>, \<open>_viewpoint_over_nodata\<close>)\<close>

text \<open>
  The opened DEM: the no-data value of band 1 (\<open>None\<close> when the band defines none), the
  geotransform, the bounding box, and \<open>ReadAsArray\<close> for a window of one pixel, which
  gives \<open>None\<close> for a window outside the raster.
\<close>

record dem_raster =
  band_nodata :: "real option"
  band_geotransform :: "real list"
  band_read :: "int \<Rightarrow> int \<Rightarrow> real option"
  band_bounding_box :: "real \<times> real \<times> real \<times> real"

definition viewpoint_within_raster :: "real \<times> real \<Rightarrow> dem_raster \<Rightarrow> bool" where
  "viewpoint_within_raster viewpoint dem =
     (case band_bounding_box dem of
        (bbox_minx, bbox_miny, bbox_maxx, bbox_maxy) \<Rightarrow>
          if \<not> (bbox_minx \<le> fst viewpoint \<and> fst viewpoint \<le> bbox_maxx) \<or>
             \<not> (bbox_miny \<le> snd viewpoint \<and> snd viewpoint \<le> bbox_maxy)
          then False else True)"

definition viewpoint_over_nodata :: "real \<times> real \<Rightarrow> dem_raster \<Rightarrow> py_error + bool" where
  "viewpoint_over_nodata viewpoint dem =
     (let dem_gt = band_geotransform dem in
      case band_nodata dem of
        None \<Rightarrow> Inr False
      | Some nodata \<Rightarrow>
          if dem_gt ! 1 = 0 \<or> dem_gt ! 5 = 0 then Inl ZeroDivisionError
          else
            let ix_viewpoint = py_int ((fst viewpoint - dem_gt ! 0) / dem_gt ! 1);
                iy_viewpoint = py_int ((snd viewpoint - dem_gt ! 3) / dem_gt ! 5);
                value_under_viewpoint = band_read dem ix_viewpoint iy_viewpoint
            in if value_under_viewpoint = Some nodata then Inr True else Inr False)"

text \<open>
  The two checks made for every point of the structures layer in \<open>execute\<close>: a point
  that fails one is skipped (\<open>continue\<close>), any other point becomes a viewpoint.
\<close>

datatype viewpoint_check = Outside_bounding_box | Over_nodata | Accepted

definition check_viewpoint :: "real \<times> real \<Rightarrow> dem_raster \<Rightarrow> py_error + viewpoint_check" where
  "check_viewpoint viewpoint dem =
     (if \<not> viewpoint_within_raster viewpoint dem then Inr Outside_bounding_box
      else case viewpoint_over_nodata viewpoint dem of
             Inl e \<Rightarrow> Inl e
           | Inr True \<Rightarrow> Inr Over_nodata
           | Inr False \<Rightarrow> Inr Accepted)"

subsection \<open>Temporary directories (\<open>_clip_and_mask_dem\<close>, \<open>_calculate_visual_quality\<close>)\<close>

text \<open>
  The directories on disk are a set of paths. What a call into the file system or into
  \<open>pygeoprocessing\<close> does is given from outside: \<open>None\<close> when the call returns, \<open>Some e\<close>
  when it raises \<open>e\<close>. Statements that are not inside a \<open>try\<close> pass the first exception
  on to the caller.
\<close>

fun first_raised :: "py_error option list \<Rightarrow> py_error option" where
  "first_raised [] = None"
| "first_raised (None # calls) = first_raised calls"
| "first_raised (Some e # calls) = Some e"

text \<open>
  \<open>try: shutil.rmtree(temp_dir) except OSError: LOGGER.exception(...)\<close>: the directory is
  gone when \<open>rmtree\<close> returns; an \<open>OSError\<close> is logged and the function goes on with the
  directory in place; any other exception is passed on.
\<close>

definition try_rmtree :: "py_error option \<Rightarrow> string \<Rightarrow> string set \<Rightarrow> py_error option \<times> string set" where
  "try_rmtree rmtree temp_dir fs =
     (case rmtree of
        None \<Rightarrow> (None, fs - {temp_dir})
      | Some e \<Rightarrow> if e = OSError then (None, fs) else (Some e, fs))"

record clip_calls =
  clip_mkdtemp :: "py_error option"
  clip_get_vector_info :: "py_error option"
  clip_get_raster_info :: "py_error option"
  clip_warp_raster :: "py_error option"
  clip_new_raster_from_base :: "py_error option"
  clip_rasterize :: "py_error option"
  clip_raster_calculator :: "py_error option"
  clip_rmtree :: "py_error option"

text \<open>
  \<open>_clip_and_mask_dem\<close>: the exception it raises, if any, and the directories it leaves.
  \<open>temp_dir\<close> is the path that \<open>mkdtemp\<close> makes.
\<close>

definition clip_and_mask_dem ::
  "clip_calls \<Rightarrow> string \<Rightarrow> string set \<Rightarrow> py_error option \<times> string set" where
  "clip_and_mask_dem calls temp_dir fs =
     (case clip_mkdtemp calls of
        Some e \<Rightarrow> (Some e, fs)
      | None \<Rightarrow>
          let fs = insert temp_dir fs in
          case first_raised [clip_get_vector_info calls, clip_get_raster_info calls,
                 clip_warp_raster calls, clip_new_raster_from_base calls,
                 clip_rasterize calls, clip_raster_calculator calls] of
            Some e \<Rightarrow> (Some e, fs)
          | None \<Rightarrow> try_rmtree (clip_rmtree calls) temp_dir fs)"

record quality_calls =
  quality_get_raster_info :: "py_error option"
  quality_makedirs :: "py_error option"
  quality_mkdtemp :: "py_error option"
  quality_spill :: "py_error option"
  quality_merge :: "py_error option"
  quality_rmtree :: "py_error option"
  quality_raster_calculator :: "py_error option"

text \<open>
  \<open>_calculate_visual_quality\<close>: the exception it raises or the classified blocks it
  writes, and the directories it leaves. \<open>quality_spill\<close> stands for the loop that reads
  the blocks and saves the runs, \<open>quality_merge\<close> for the loop that reads the runs back;
  the last call, after the directory is dealt with, is the \<open>raster_calculator\<close> of the
  classification.
\<close>

definition calculate_visual_quality ::
  "quality_calls \<Rightarrow> real \<Rightarrow> real list list \<Rightarrow> string \<Rightarrow> string \<Rightarrow> string set
     \<Rightarrow> (py_error + 8 word list list) \<times> string set" where
  "calculate_visual_quality calls raster_nodata blocks working_dir temp_dir fs =
     (case quality_get_raster_info calls of
        Some e \<Rightarrow> (Inl e, fs)
      | None \<Rightarrow>
          case (if working_dir \<notin> fs then quality_makedirs calls else None) of
            Some e \<Rightarrow> (Inl e, fs)
          | None \<Rightarrow>
              let fs = insert working_dir fs in
              case quality_mkdtemp calls of
                Some e \<Rightarrow> (Inl e, fs)
              | None \<Rightarrow>
                  let fs = insert temp_dir fs in
                  case first_raised [quality_spill calls, quality_merge calls] of
                    Some e \<Rightarrow> (Inl e, fs)
                  | None \<Rightarrow>
                      let percentile_values = percentile_breakpoints raster_nodata blocks in
                      case try_rmtree (quality_rmtree calls) temp_dir fs of
                        (Some e, fs) \<Rightarrow> (Inl e, fs)
                      | (None, fs) \<Rightarrow>
                          case quality_raster_calculator calls of
                            Some e \<Rightarrow> (Inl e, fs)
                          | None \<Rightarrow>
                              (Inr (map (map_percentiles raster_nodata percentile_values)
                                      blocks), fs))"

subsection \<open>The start of \<open>execute\<close>\<close>

text \<open>
  The arguments, with the types the docstring gives them, and what \<open>execute\<close> has done
  so far: the directories made, whether the task graph exists, the tasks added to it
  and the warnings logged.
\<close>

record args =
  arg_workspace_dir :: string
  arg_valuation_function :: string
  arg_a_coef :: real
  arg_b_coef :: real
  arg_max_valuation_radius :: real

datatype task =
    Reproject_aoi_to_dem
  | Reproject_structures_to_dem
  | Clip_reprojected_structures_to_aoi
  | Clip_dem_to_aoi
  | Calculate_visibility nat
  | Calculate_valuation_for_viewshed nat
  | Add_up_valuation_rasters
  | Sum_visibility_for_all_structures
  | Calculate_visual_quality

record progress =
  directories_made :: "string list"
  graph_constructed :: bool
  tasks_added :: "task list"
  warnings_logged :: nat

text \<open>\<open>s.startswith(p)\<close>.\<close>

definition startswith :: "string \<Rightarrow> string \<Rightarrow> bool" where
  "startswith s p = (take (length p) s = p)"

definition add_task :: "task \<Rightarrow> progress \<Rightarrow> progress" where
  "add_task t st = st\<lparr>tasks_added := tasks_added st @ [t]\<rparr>"

text \<open>The loop over the sorted viewpoints, which adds two tasks for every viewpoint.\<close>

fun viewshed_tasks :: "nat \<Rightarrow> nat \<Rightarrow> progress \<Rightarrow> progress" where
  "viewshed_tasks feature_index 0 st = st"
| "viewshed_tasks feature_index (Suc n) st =
     viewshed_tasks (feature_index + 1) n
       (add_task (Calculate_valuation_for_viewshed feature_index)
          (add_task (Calculate_visibility feature_index) st))"

text \<open>
  \<open>execute\<close>, given the information read from the DEM and the number of viewpoints
  found once the clipping tasks are done. Running the tasks is the work of the task graph
  and is not modelled: a task is recorded when \<open>add_task\<close> is called.
\<close>

definition execute :: "args \<Rightarrow> raster_info \<Rightarrow> nat \<Rightarrow> progress \<Rightarrow> (py_error + unit) \<times> progress" where
  "execute a dem_raster_info n_viewpoints st =
     (let valuation_coefficients = \<lparr>coef_a = arg_a_coef a, coef_b = arg_b_coef a\<rparr>;
          chosen =
            (if startswith (arg_valuation_function a) ''linear'' then Inr (''linear'', st)
             else if startswith (arg_valuation_function a) ''logarithmic'' then
               Inr (''logarithmic'',
                    if mean_pixel_size dem_raster_info < 1
                    then st\<lparr>warnings_logged := warnings_logged st + 1\<rparr> else st)
             else if startswith (arg_valuation_function a) ''exponential'' then
               Inr (''exponential'', st)
             else Inl ValueError)
      in case chosen of
           Inl e \<Rightarrow> (Inl e, st)
         | Inr (valuation_method, st) \<Rightarrow>
             let output_dir = arg_workspace_dir a @ ''/output'';
                 intermediate_dir = arg_workspace_dir a @ ''/intermediate'';
                 st = st\<lparr>directories_made := directories_made st @ [output_dir, intermediate_dir]\<rparr>;
                 st = st\<lparr>graph_constructed := True\<rparr>;
                 st = add_task Reproject_aoi_to_dem st;
                 st = add_task Reproject_structures_to_dem st;
                 st = add_task Clip_reprojected_structures_to_aoi st;
                 st = add_task Clip_dem_to_aoi st;
                 st = viewshed_tasks 0 n_viewpoints st;
                 st = add_task Add_up_valuation_rasters st;
                 st = add_task Sum_visibility_for_all_structures st;
                 st = add_task Calculate_visual_quality st
             in (Inr (), st))"

definition initial_progress :: progress where
  "initial_progress =
     \<lparr>directories_made = [], graph_constructed = False, tasks_added = [], warnings_logged = 0\<rparr>"

section \<open>Properties\<close>

subsection \<open>Mask indexing\<close>

lemma length_np_put [simp]: "length (np_put xs m vs) = length xs"
  by (induction xs m vs rule: np_put.induct) (auto split: list.splits)

lemma length_np_fill [simp]: "length (np_fill xs m c) = length xs"
  by (induction xs m c rule: np_fill.induct) auto

lemma length_mask_and [simp]: "length (mask_and m1 m2) = min (length m1) (length m2)"
  by (simp add: mask_and_def)

lemma length_mask_not [simp]: "length (mask_not m) = length m"
  by (simp add: mask_not_def)

lemma nth_mask_and:
  "i < length m1 \<Longrightarrow> i < length m2 \<Longrightarrow> mask_and m1 m2 ! i = (m1 ! i \<and> m2 ! i)"
  by (simp add: mask_and_def)

lemma nth_mask_not: "i < length m \<Longrightarrow> mask_not m ! i = (\<not> m ! i)"
  by (simp add: mask_not_def)

lemma np_take_zip:
  "length xs = length ys \<Longrightarrow> np_take (zip xs ys) m = zip (np_take xs m) (np_take ys m)"
proof (induction xs m arbitrary: ys rule: np_take.induct)
  case (1 x xs b bs)
  then show ?case by (cases ys) auto
qed auto

lemma length_np_take_eq:
  "length xs = length ys \<Longrightarrow> length (np_take xs m) = length (np_take ys m)"
proof (induction xs m arbitrary: ys rule: np_take.induct)
  case (1 x xs b bs)
  then show ?case by (cases ys) auto
qed auto

text \<open>Taking under a mask, mapping, and putting back acts pixel by pixel.\<close>

lemma nth_np_put_map_take:
  "length m = length xs \<Longrightarrow> length ys = length xs \<Longrightarrow> i < length xs \<Longrightarrow>
   np_put xs m (map f (np_take ys m)) ! i = (if m ! i then f (ys ! i) else xs ! i)"
proof (induction xs m "map f (np_take ys m)" arbitrary: ys i rule: np_put.induct)
  case (1 x xs b bs)
  then obtain y ys' where ys: "ys = y # ys'" by (cases ys) auto
  show ?case
  proof (cases b)
    case True
    with 1 ys show ?thesis by (cases i) auto
  next
    case False
    with 1 ys show ?thesis by (cases i) auto
  qed
qed auto

lemma nth_np_fill:
  "length m = length xs \<Longrightarrow> i < length xs \<Longrightarrow>
   np_fill xs m c ! i = (if m ! i then c else xs ! i)"
proof (induction xs m c arbitrary: i rule: np_fill.induct)
  case (1 x xs b bs c)
  then show ?case by (cases i) auto
qed auto

subsection \<open>The valuation closures act pixel by pixel\<close>

lemma np_put_zero_map2:
  assumes "length vs = length ds" "length m = length ds"
  shows "np_put (replicate (length ds) (0::real)) m (map2 g (np_take ds m) (np_take vs m)) =
         map (\<lambda>i. if m ! i then g (ds ! i) (vs ! i) else 0) [0 ..< length ds]"
proof (rule nth_equalityI)
  show "length (np_put (replicate (length ds) (0::real)) m (map2 g (np_take ds m) (np_take vs m))) =
        length (map (\<lambda>i. if m ! i then g (ds ! i) (vs ! i) else 0) [0 ..< length ds])"
    by simp
next
  fix i
  assume "i < length (np_put (replicate (length ds) (0::real)) m
                        (map2 g (np_take ds m) (np_take vs m)))"
  then have i: "i < length ds" by simp
  have "np_put (replicate (length ds) 0) m (map2 g (np_take ds m) (np_take vs m)) ! i =
        np_put (replicate (length ds) 0) m
          (map (\<lambda>(d, v). g d v) (np_take (zip ds vs) m)) ! i"
    using assms by (simp add: np_take_zip)
  also have "\<dots> = (if m ! i then g (ds ! i) (vs ! i) else 0)"
    using assms i by (subst nth_np_put_map_take) auto
  finally show "np_put (replicate (length ds) 0) m (map2 g (np_take ds m) (np_take vs m)) ! i =
                map (\<lambda>i. if m ! i then g (ds ! i) (vs ! i) else 0) [0 ..< length ds] ! i"
    using i by simp
qed

lemma valuation_linear_pixelwise:
  assumes "length visibility = length distance"
  shows "valuation_linear c weight distance visibility =
         map2 (\<lambda>d v. if v > 0 then (coef_a c + coef_b c * d) * (weight * v) else 0)
           distance visibility"
  using assms
  by (auto simp: valuation_linear_def Let_def np_put_zero_map2 intro!: nth_equalityI)

lemma valuation_logarithmic_pixelwise:
  assumes "length visibility = length distance"
  shows "valuation_logarithmic c weight distance visibility =
         map2 (\<lambda>d v. if v > 0 \<and> d > 0 then (coef_a c + coef_b c * ln d) * (weight * v) else 0)
           distance visibility"
  using assms
  by (auto simp: valuation_logarithmic_def Let_def np_put_zero_map2 nth_mask_and
           intro!: nth_equalityI)

lemma valuation_exponential_pixelwise:
  assumes "length visibility = length distance"
  shows "valuation_exponential c weight distance visibility =
         map2 (\<lambda>d v. if v > 0 then (coef_a c * exp (- coef_b c * d)) * (weight * v) else 0)
           distance visibility"
  using assms
  by (auto simp: valuation_exponential_def Let_def np_put_zero_map2 intro!: nth_equalityI)

lemma nth_valuation_block:
  assumes pw: "\<And>ds vs. length vs = length ds \<Longrightarrow> valuation ds vs = map2 g ds vs"
    and len: "length dist_block = length vis_block" and i: "i < length vis_block"
  shows "valuation_block valuation max_valuation_radius vis_nodata dist_block vis_block ! i =
         (if vis_block ! i = vis_nodata then VALUATION_NODATA
          else if dist_block ! i \<le> max_valuation_radius then g (dist_block ! i) (vis_block ! i)
          else 0)"
proof -
  let ?m = "mask_and (map (\<lambda>d. d \<le> max_valuation_radius) dist_block)
              (mask_not (map (\<lambda>v. v = vis_nodata) vis_block))"
  have "valuation (np_take dist_block ?m) (np_take vis_block ?m) =
        map (\<lambda>(d, v). g d v) (np_take (zip dist_block vis_block) ?m)"
    using len by (simp add: pw length_np_take_eq [of vis_block dist_block] np_take_zip)
  then show ?thesis
    using len i
    by (simp add: valuation_block_def Let_def nth_np_fill nth_np_put_map_take
          nth_mask_and nth_mask_not)
qed

lemma length_dist_in_m:
  "length (dist_in_m ix iy ps bi) = win_xsize bi * win_ysize bi"
  by (simp add: dist_in_m_def Let_def meshgrid_x_def meshgrid_y_def linspace_def
        length_concat comp_def sum_list_triv)

subsection \<open>The whole valuation raster\<close>

lemma select_valuation_pixelwise:
  assumes "select_valuation valuation_method c weight = Some valuation"
  shows "\<exists>g. (\<forall>d. g d 0 = 0) \<and>
             (\<forall>ds vs. length vs = length ds \<longrightarrow> valuation ds vs = map2 g ds vs)"
proof -
  consider "valuation = valuation_linear c weight" | "valuation = valuation_logarithmic c weight"
    | "valuation = valuation_exponential c weight"
    using assms by (auto simp: select_valuation_def Let_def split: if_splits)
  then show ?thesis
  proof cases
    case 1
    show ?thesis
      by (rule exI [of _ "\<lambda>d v. if v > 0 then (coef_a c + coef_b c * d) * (weight * v) else 0"])
         (simp add: 1 valuation_linear_pixelwise)
  next
    case 2
    show ?thesis
      by (rule exI [of _ "\<lambda>d v. if v > 0 \<and> d > 0
                                 then (coef_a c + coef_b c * ln d) * (weight * v) else 0"])
         (simp add: 2 valuation_logarithmic_pixelwise)
  next
    case 3
    show ?thesis
      by (rule exI [of _ "\<lambda>d v. if v > 0 then (coef_a c * exp (- coef_b c * d)) * (weight * v)
                                 else 0"])
         (simp add: 3 valuation_exponential_pixelwise)
  qed
qed

lemma calculate_valuation_Inr:
  assumes "lower valuation_method \<in> {''linear'', ''logarithmic'', ''exponential''}"
    and "geotransform vis_raster_info ! 1 \<noteq> 0" "geotransform vis_raster_info ! 5 \<noteq> 0"
    and "blocks \<noteq> []"
  shows "\<exists>valuation. select_valuation valuation_method c weight = Some valuation \<and>
           calculate_valuation vis_raster_info blocks viewpoint weight valuation_method c
             max_valuation_radius =
           Inr (map (\<lambda>(bi, vis_block).
                  valuation_block valuation max_valuation_radius (nodata_value vis_raster_info)
                    (dist_in_m
                       (py_int ((fst viewpoint - geotransform vis_raster_info ! 0)
                                  / geotransform vis_raster_info ! 1))
                       (py_int ((snd viewpoint - geotransform vis_raster_info ! 3)
                                  / geotransform vis_raster_info ! 5))
                       (mean_pixel_size vis_raster_info * linear_units vis_raster_info) bi)
                    vis_block) blocks)"
  using assms by (auto simp: calculate_valuation_def select_valuation_def Let_def)

subsection \<open>Concrete values used by the examples\<close>

lemma lower_linear: "lower ''linear'' = ''linear''"
  by code_simp

lemma lower_Logarithmic: "lower ''Logarithmic'' = ''logarithmic''"
  by code_simp

lemma linspace_0_3: "linspace 0 3 = [0, 1, 2]"
proof -
  have "[0 ..< 3 :: nat] = [0, 1, 2]" by code_simp
  then show ?thesis by (simp add: linspace_def)
qed

lemma linspace_0_1: "linspace 0 (Suc 0) = [0]"
  by (simp add: linspace_def)

lemma dist0:
  "dist_in_m 0 0 1 \<lparr>xoff = 0, yoff = 0, win_xsize = 3, win_ysize = Suc 0\<rparr> = [0, 1, 2]"
  by (simp add: dist_in_m_def Let_def linspace_0_3 linspace_0_1 meshgrid_x_def meshgrid_y_def hypot_def)

subsection \<open>Claims about \<open>_calculate_valuation\<close>\<close>

text \<open>
  Claim C1. For each of the three valuation methods and every pixel of every block of the
  visibility raster: a pixel holding the visibility raster's no-data value is written as
  \<open>VALUATION_NODATA\<close>; any other pixel whose ground distance to the viewpoint exceeds
  \<open>max_valuation_radius\<close> is written as 0; and any other pixel whose visibility is 0 is
  written as 0, whatever its distance. The function returns (it raises nothing) as soon as
  the method is one of the three names and the pixel width and height are not 0.
\<close>

theorem calculate_valuation_pixel_cases:
  assumes "lower valuation_method \<in> {''linear'', ''logarithmic'', ''exponential''}"
    and "geotransform vis_raster_info ! 1 \<noteq> 0" "geotransform vis_raster_info ! 5 \<noteq> 0"
    and "k < length blocks" "blocks ! k = (bi, vis_block)"
    and "length vis_block = win_xsize bi * win_ysize bi" "i < length vis_block"
  shows "\<exists>out. calculate_valuation vis_raster_info blocks viewpoint weight valuation_method c
                 max_valuation_radius = Inr out \<and>
           (vis_block ! i = nodata_value vis_raster_info \<longrightarrow> out ! k ! i = VALUATION_NODATA) \<and>
           (vis_block ! i \<noteq> nodata_value vis_raster_info \<and>
              pixel_distance vis_raster_info viewpoint bi i > max_valuation_radius
              \<longrightarrow> out ! k ! i = 0) \<and>
           (vis_block ! i \<noteq> nodata_value vis_raster_info \<and> vis_block ! i = 0
              \<longrightarrow> out ! k ! i = 0)"
proof -
  from assms(4) have ne: "blocks \<noteq> []" by auto
  from calculate_valuation_Inr [OF assms(1-3) ne, of c weight viewpoint max_valuation_radius]
  obtain valuation where sel: "select_valuation valuation_method c weight = Some valuation"
    and cv: "calculate_valuation vis_raster_info blocks viewpoint weight valuation_method c
             max_valuation_radius =
           Inr (map (\<lambda>(bi, vis_block).
                  valuation_block valuation max_valuation_radius (nodata_value vis_raster_info)
                    (dist_in_m
                       (py_int ((fst viewpoint - geotransform vis_raster_info ! 0)
                                  / geotransform vis_raster_info ! 1))
                       (py_int ((snd viewpoint - geotransform vis_raster_info ! 3)
                                  / geotransform vis_raster_info ! 5))
                       (mean_pixel_size vis_raster_info * linear_units vis_raster_info) bi)
                    vis_block) blocks)"
    by blast
  from select_valuation_pixelwise [OF sel] obtain g where g0: "\<And>d. g d 0 = 0"
    and pw: "\<And>ds vs. length vs = length ds \<Longrightarrow> valuation ds vs = map2 g ds vs"
    by blast
  show ?thesis
    using assms(4-7) g0
    by (simp add: cv pixel_distance_def nth_valuation_block [where g = g, OF pw]
          length_dist_in_m)
qed

text \<open>An instance: a row of three pixels, no-data, not visible, and visible at distance 2 > 1.\<close>

theorem calculate_valuation_pixel_cases_witness:
  "\<exists>out. calculate_valuation
            \<lparr>geotransform = [0, 1, 0, 0, 0, - 1], mean_pixel_size = 1, linear_units = 1,
              nodata_value = 255\<rparr>
            [(\<lparr>xoff = 0, yoff = 0, win_xsize = 3, win_ysize = 1\<rparr>, [255, 0, 1])]
            (0, 0) 2 ''linear'' \<lparr>coef_a = 1, coef_b = 0\<rparr> 1 = Inr out \<and>
         out ! 0 ! 0 = VALUATION_NODATA \<and> out ! 0 ! 1 = 0 \<and> out ! 0 ! 2 = 0"
proof -
  let ?info = "\<lparr>geotransform = [0, 1, 0, 0, 0, - 1], mean_pixel_size = 1, linear_units = 1,
              nodata_value = 255\<rparr>"
  let ?bi = "\<lparr>xoff = 0, yoff = 0, win_xsize = 3, win_ysize = 1\<rparr>"
  have d: "pixel_distance ?info (0, 0) \<lparr>xoff = 0, yoff = 0, win_xsize = 3, win_ysize = Suc 0\<rparr> 2 = 2"
    by (simp add: pixel_distance_def py_int_def dist0)
  show ?thesis
    using calculate_valuation_pixel_cases
            [of "''linear''" ?info 0 "[(?bi, [255, 0, 1])]" ?bi "[255, 0, 1]" 0
                "(0, 0)" 2 "\<lparr>coef_a = 1, coef_b = 0\<rparr>" 1]
          calculate_valuation_pixel_cases
            [of "''linear''" ?info 0 "[(?bi, [255, 0, 1])]" ?bi "[255, 0, 1]" 1
                "(0, 0)" 2 "\<lparr>coef_a = 1, coef_b = 0\<rparr>" 1]
          calculate_valuation_pixel_cases
            [of "''linear''" ?info 0 "[(?bi, [255, 0, 1])]" ?bi "[255, 0, 1]" 2
                "(0, 0)" 2 "\<lparr>coef_a = 1, coef_b = 0\<rparr>" 1]
    by (auto simp: lower_linear d)
qed

text \<open>
  Claim C2. With the logarithmic method, a visible pixel (its value is not the no-data
  value and is greater than 0) within the maximum valuation radius is written as
  \<open>(a + b * ln distance) * weight * visibility\<close> when its distance is positive, and as
  exactly 0 when its distance is 0: the logarithm is never taken at 0 and nothing is
  raised. No-data pixels are the subject of claim C1: the guard \<open>~nodata\<close> of the loop
  keeps them out of the closure.
\<close>

theorem calculate_valuation_logarithmic_pixel:
  assumes "lower valuation_method = ''logarithmic''"
    and "geotransform vis_raster_info ! 1 \<noteq> 0" "geotransform vis_raster_info ! 5 \<noteq> 0"
    and "k < length blocks" "blocks ! k = (bi, vis_block)"
    and "length vis_block = win_xsize bi * win_ysize bi" "i < length vis_block"
    and "vis_block ! i \<noteq> nodata_value vis_raster_info" "vis_block ! i > 0"
    and "pixel_distance vis_raster_info viewpoint bi i \<le> max_valuation_radius"
  shows "\<exists>out. calculate_valuation vis_raster_info blocks viewpoint weight valuation_method c
                 max_valuation_radius = Inr out \<and>
           (pixel_distance vis_raster_info viewpoint bi i > 0 \<longrightarrow>
              out ! k ! i =
                (coef_a c + coef_b c * ln (pixel_distance vis_raster_info viewpoint bi i))
                  * weight * vis_block ! i) \<and>
           (pixel_distance vis_raster_info viewpoint bi i = 0 \<longrightarrow> out ! k ! i = 0)"
proof -
  from assms(4) have ne: "blocks \<noteq> []" by auto
  have sel: "select_valuation valuation_method c weight = Some (valuation_logarithmic c weight)"
    using assms(1) by (simp add: select_valuation_def)
  have cv: "calculate_valuation vis_raster_info blocks viewpoint weight valuation_method c
             max_valuation_radius =
           Inr (map (\<lambda>(bi, vis_block).
                  valuation_block (valuation_logarithmic c weight) max_valuation_radius
                    (nodata_value vis_raster_info)
                    (dist_in_m
                       (py_int ((fst viewpoint - geotransform vis_raster_info ! 0)
                                  / geotransform vis_raster_info ! 1))
                       (py_int ((snd viewpoint - geotransform vis_raster_info ! 3)
                                  / geotransform vis_raster_info ! 5))
                       (mean_pixel_size vis_raster_info * linear_units vis_raster_info) bi)
                    vis_block) blocks)"
    using assms(2,3) ne by (simp add: calculate_valuation_def sel Let_def)
  show ?thesis
    using assms(4-10)
    by (simp add: cv pixel_distance_def length_dist_in_m
          nth_valuation_block [OF valuation_logarithmic_pixelwise])
qed

text \<open>An instance: visible pixels at distance 0 and 1, with \<open>a = 3\<close>, \<open>b = 5\<close> and weight 2.\<close>

theorem calculate_valuation_logarithmic_pixel_witness:
  "\<exists>out. calculate_valuation
            \<lparr>geotransform = [0, 1, 0, 0, 0, - 1], mean_pixel_size = 1, linear_units = 1,
              nodata_value = 255\<rparr>
            [(\<lparr>xoff = 0, yoff = 0, win_xsize = 3, win_ysize = 1\<rparr>, [1, 1, 1])]
            (0, 0) 2 ''Logarithmic'' \<lparr>coef_a = 3, coef_b = 5\<rparr> 1 = Inr out \<and>
         out ! 0 ! 0 = 0 \<and> out ! 0 ! 1 = 6"
proof -
  let ?info = "\<lparr>geotransform = [0, 1, 0, 0, 0, - 1], mean_pixel_size = 1, linear_units = 1,
              nodata_value = 255\<rparr>"
  let ?bi = "\<lparr>xoff = 0, yoff = 0, win_xsize = 3, win_ysize = 1\<rparr>"
  have d0: "pixel_distance ?info (0, 0) \<lparr>xoff = 0, yoff = 0, win_xsize = 3, win_ysize = Suc 0\<rparr> 0 = 0"
    by (simp add: pixel_distance_def py_int_def dist0)
  have d1: "pixel_distance ?info (0, 0) \<lparr>xoff = 0, yoff = 0, win_xsize = 3, win_ysize = Suc 0\<rparr> (Suc 0) = 1"
    by (simp add: pixel_distance_def py_int_def dist0)
  show ?thesis
    using calculate_valuation_logarithmic_pixel
            [of "''Logarithmic''" ?info 0 "[(?bi, [1, 1, 1])]" ?bi "[1, 1, 1]" 0
                "(0, 0)" 1 2 "\<lparr>coef_a = 3, coef_b = 5\<rparr>"]
          calculate_valuation_logarithmic_pixel
            [of "''Logarithmic''" ?info 0 "[(?bi, [1, 1, 1])]" ?bi "[1, 1, 1]" 1
                "(0, 0)" 1 2 "\<lparr>coef_a = 3, coef_b = 5\<rparr>"]
    by (auto simp: lower_Logarithmic d0 d1)
qed

subsection \<open>The aggregators\<close>

lemma nth_np_add_at:
  assumes "length m = length xs" "length ys = length xs" "i < length xs"
  shows "np_add_at xs m (map f (np_take ys m)) ! i = (if m ! i then xs ! i + f (ys ! i) else xs ! i)"
proof -
  have "map2 (+) (np_take xs m) (map f (np_take ys m)) =
        map (\<lambda>(x, y). x + f y) (np_take (zip xs ys) m)"
    using assms(2)
    by (simp add: np_take_zip zip_map2 split_def)
  then show ?thesis
    using assms by (simp add: np_add_at_def nth_np_put_map_take)
qed

lemma length_np_add_at [simp]: "length (np_add_at xs m vs) = length xs"
  by (simp add: np_add_at_def)

lemma nth_sum_rasters_loop:
  assumes "length valid_dem_pixels = length raster_sum"
    and "\<forall>v \<in> set valuation_rasters. length v = length raster_sum"
    and "i < length raster_sum"
  shows "sum_rasters_loop valid_dem_pixels raster_sum valuation_rasters ! i =
         raster_sum ! i +
         (if valid_dem_pixels ! i
          then (\<Sum>v\<leftarrow>valuation_rasters. if v ! i \<noteq> VALUATION_NODATA then v ! i else 0)
          else 0)"
  using assms
proof (induction valuation_rasters arbitrary: raster_sum)
  case Nil
  then show ?case by simp
next
  case (Cons v rest)
  let ?m = "mask_and (map (\<lambda>v. v \<noteq> VALUATION_NODATA) v) valid_dem_pixels"
  let ?acc = "np_add_at raster_sum ?m (np_take v ?m)"
  have step: "?acc ! i = (if ?m ! i then raster_sum ! i + v ! i else raster_sum ! i)"
    using Cons.prems nth_np_add_at [of ?m raster_sum v i "\<lambda>x. x"] by simp
  have "sum_rasters_loop valid_dem_pixels ?acc rest ! i =
        ?acc ! i + (if valid_dem_pixels ! i
          then (\<Sum>v\<leftarrow>rest. if v ! i \<noteq> VALUATION_NODATA then v ! i else 0) else 0)"
    using Cons.prems by (intro Cons.IH) auto
  then show ?case
    using Cons.prems by (simp add: Let_def step nth_mask_and)
qed

lemma nth_visibility_loop:
  assumes "length valid_mask = length visibility_sum"
    and "\<forall>p \<in> set pairs. length (fst p) = length visibility_sum"
    and "i < length visibility_sum"
  shows "visibility_loop valid_mask visibility_sum pairs ! i =
         visibility_sum ! i +
         (if valid_mask ! i then (\<Sum>p\<leftarrow>pairs. if fst p ! i = 1 then snd p else 0) else 0)"
  using assms
proof (induction pairs arbitrary: visibility_sum)
  case Nil
  then show ?case by simp
next
  case (Cons p rest)
  obtain v w where p: "p = (v, w)" by (cases p)
  let ?m = "mask_and (map (\<lambda>v. v = 1) v) valid_mask"
  let ?acc = "np_add_at visibility_sum ?m (map (\<lambda>v. v * w) (np_take v ?m))"
  have step: "?acc ! i = (if ?m ! i then visibility_sum ! i + v ! i * w else visibility_sum ! i)"
    using Cons.prems p nth_np_add_at [of ?m visibility_sum v i "\<lambda>v. v * w"] by simp
  have "visibility_loop valid_mask ?acc rest ! i =
        ?acc ! i + (if valid_mask ! i
          then (\<Sum>p\<leftarrow>rest. if fst p ! i = 1 then snd p else 0) else 0)"
    using Cons.prems by (intro Cons.IH) auto
  then show ?case
    using Cons.prems p by (simp add: Let_def step nth_mask_and)
qed


lemma sum_list_zip_nth:
  assumes "length ys = length xs"
  shows "(\<Sum>p\<leftarrow>zip xs ys. g p) = (\<Sum>j<length xs. g (xs ! j, ys ! j))"
proof -
  have "(\<Sum>p\<leftarrow>zip xs ys. g p) = (\<Sum>j = 0..<length xs. map g (zip xs ys) ! j)"
    using assms by (simp add: sum_list_sum_nth)
  also have "\<dots> = (\<Sum>j = 0..<length xs. g (xs ! j, ys ! j))"
    using assms by (intro sum.cong) auto
  finally show ?thesis by (simp add: atLeast0LessThan)
qed

text \<open>
  Claim C6. In \<open>_sum_valuation_rasters\<close>, a pixel whose DEM value is no-data is written
  as \<open>VALUATION_NODATA\<close>; any other pixel is the sum, started at 0, of the values of the
  valuation rasters at that pixel that are not \<open>VALUATION_NODATA\<close> (a no-data value adds
  nothing and the loop goes on). With no valuation raster every valid pixel is 0.
\<close>

theorem sum_valuation_rasters_pixel:
  assumes "k < length blocks" "blocks ! k = (dem, valuation_rasters)"
    and "\<forall>v \<in> set valuation_rasters. length v = length dem" "i < length dem"
  shows "sum_valuation_rasters dem_nodata blocks ! k ! i =
           (if dem ! i = dem_nodata then VALUATION_NODATA
            else (\<Sum>v\<leftarrow>valuation_rasters. if v ! i \<noteq> VALUATION_NODATA then v ! i else 0)) \<and>
         (valuation_rasters = [] \<and> dem ! i \<noteq> dem_nodata \<longrightarrow>
            sum_valuation_rasters dem_nodata blocks ! k ! i = 0)"
proof -
  have "sum_valuation_rasters dem_nodata blocks ! k = sum_rasters dem_nodata dem valuation_rasters"
    using assms(1,2) by (simp add: sum_valuation_rasters_def)
  moreover have "sum_rasters dem_nodata dem valuation_rasters ! i =
           (if dem ! i = dem_nodata then VALUATION_NODATA
            else (\<Sum>v\<leftarrow>valuation_rasters. if v ! i \<noteq> VALUATION_NODATA then v ! i else 0))"
    using assms(3,4) by (simp add: sum_rasters_def Let_def nth_sum_rasters_loop nth_np_fill)
  ultimately show ?thesis by auto
qed

text \<open>An instance: three valuation rasters over a block of two pixels.\<close>

theorem sum_valuation_rasters_pixel_witness:
  "sum_valuation_rasters 7 [([7, 100], [[1, 2], [- 99999, 5], [4, 8]])] ! 0 ! 1 = 15 \<and>
   sum_valuation_rasters 7 [([7, 100], [[1, 2], [- 99999, 5], [4, 8]])] ! 0 ! 0 = - 99999"
  using sum_valuation_rasters_pixel
          [of 0 "[([7, 100], [[1, 2], [- 99999, 5], [4, 8]])]" "[7, 100]"
              "[[1, 2], [- 99999, 5], [4, 8]]" 1 7]
        sum_valuation_rasters_pixel
          [of 0 "[([7, 100], [[1, 2], [- 99999, 5], [4, 8]])]" "[7, 100]"
              "[[1, 2], [- 99999, 5], [4, 8]]" 0 7]
  by (simp add: VALUATION_NODATA_def)

text \<open>
  Claim C5. In \<open>_count_visible_structures\<close>, a pixel whose DEM value is no-data is
  written as the target no-data value \<open>-1\<close> (not 0); any other pixel is the sum of the
  weights of exactly those viewpoints whose visibility raster holds 1 at that pixel, so
  that a visibility value of 0 or no-data adds nothing. With no visibility raster every
  valid pixel is 0.
\<close>

theorem count_visible_structures_pixel:
  assumes "k < length blocks" "blocks ! k = (bi, dem_matrix, visibility_matrices)"
    and "length dem_matrix = win_ysize bi * win_xsize bi"
    and "\<forall>v \<in> set visibility_matrices. length v = length dem_matrix"
    and "length weights = length visibility_matrices" "i < length dem_matrix"
  shows "count_visible_structures dem_nodata weights blocks ! k ! i =
           (if dem_matrix ! i = dem_nodata then - 1
            else (\<Sum>j<length visibility_matrices.
                    if visibility_matrices ! j ! i = 1 then weights ! j else 0)) \<and>
         (visibility_matrices = [] \<and> dem_matrix ! i \<noteq> dem_nodata \<longrightarrow>
            count_visible_structures dem_nodata weights blocks ! k ! i = 0)"
proof -
  have "count_visible_structures dem_nodata weights blocks ! k =
        count_visible_block dem_nodata weights bi dem_matrix visibility_matrices"
    using assms(1,2) by (simp add: count_visible_structures_def)
  moreover have "\<forall>p \<in> set (zip visibility_matrices weights). length (fst p) = length dem_matrix"
    using assms(4) by (auto dest: set_zip_leftD)
  then have "count_visible_block dem_nodata weights bi dem_matrix visibility_matrices ! i =
           (if dem_matrix ! i = dem_nodata then - 1
            else (\<Sum>p\<leftarrow>zip visibility_matrices weights. if fst p ! i = 1 then snd p else 0))"
    using assms(3,6)
    by (simp add: count_visible_block_def Let_def nth_visibility_loop nth_np_fill nth_mask_not
          target_nodata_def)
  moreover have "(\<Sum>p\<leftarrow>zip visibility_matrices weights. if fst p ! i = 1 then snd p else 0) =
        (\<Sum>j<length visibility_matrices.
            if visibility_matrices ! j ! i = 1 then weights ! j else 0)"
    using assms(5) by (simp add: sum_list_zip_nth cong: if_cong)
  ultimately show ?thesis by auto
qed

text \<open>An instance: two viewpoints of weights 1 and 3, both visible at the second pixel.\<close>

theorem count_visible_structures_pixel_witness:
  "count_visible_structures 9 [1, 3]
     [(\<lparr>xoff = 0, yoff = 0, win_xsize = 2, win_ysize = 1\<rparr>, [9, 100], [[1, 1], [255, 1]])]
     ! 0 ! 1 = 4 \<and>
   count_visible_structures 9 [1, 3]
     [(\<lparr>xoff = 0, yoff = 0, win_xsize = 2, win_ysize = 1\<rparr>, [9, 100], [[1, 1], [255, 1]])]
     ! 0 ! 0 = - 1"
  using count_visible_structures_pixel
          [of 0 "[(\<lparr>xoff = 0, yoff = 0, win_xsize = 2, win_ysize = 1\<rparr>, [9, 100],
                   [[1, 1], [255, 1]])]"
              "\<lparr>xoff = 0, yoff = 0, win_xsize = 2, win_ysize = 1\<rparr>" "[9, 100]"
              "[[1, 1], [255, 1]]" "[1, 3]" 1 9]
        count_visible_structures_pixel
          [of 0 "[(\<lparr>xoff = 0, yoff = 0, win_xsize = 2, win_ysize = 1\<rparr>, [9, 100],
                   [[1, 1], [255, 1]])]"
              "\<lparr>xoff = 0, yoff = 0, win_xsize = 2, win_ysize = 1\<rparr>" "[9, 100]"
              "[[1, 1], [255, 1]]" "[1, 3]" 0 9]
  by (simp add: lessThan_Suc numeral_2_eq_2)

subsection \<open>Classification\<close>

lemma takeWhile_le_sorted:
  "sorted bins \<Longrightarrow> takeWhile (\<lambda>b. b \<le> x) bins = filter (\<lambda>b. b \<le> (x::real)) bins"
proof (induction bins)
  case Nil
  then show ?case by simp
next
  case (Cons b bins)
  show ?case
  proof (cases "b \<le> x")
    case True
    with Cons show ?thesis by simp
  next
    case False
    with Cons.prems have "\<forall>c \<in> set bins. \<not> c \<le> x" by fastforce
    with False show ?thesis by simp
  qed
qed

lemma length_map_percentiles [simp]:
  "length (map_percentiles raster_nodata percentile_bins valuation_matrix) =
   length valuation_matrix"
  by (simp add: map_percentiles_def Let_def)

lemma nth_map_percentiles:
  assumes "i < length valuation_matrix"
  shows "map_percentiles raster_nodata percentile_bins valuation_matrix ! i =
         (if valuation_matrix ! i = raster_nodata then 255
          else if valuation_matrix ! i = 0 then 0
          else word_of_nat (length (takeWhile (\<lambda>b. b \<le> valuation_matrix ! i) percentile_bins)))"
proof -
  let ?m = "mask_and (mask_not (map (\<lambda>v. v = raster_nodata) valuation_matrix))
              (map (\<lambda>v. v \<noteq> 0) valuation_matrix)"
  have "map word_of_nat (digitize (np_take valuation_matrix ?m) percentile_bins) =
        map (\<lambda>x. word_of_nat (length (takeWhile (\<lambda>b. b \<le> x) percentile_bins)) :: 8 word)
          (np_take valuation_matrix ?m)"
    by (simp add: digitize_def)
  then show ?thesis
    using assms
    by (simp add: map_percentiles_def Let_def nth_np_put_map_take nth_np_fill nth_mask_and
          nth_mask_not BYTE_NODATA_def)
qed

text \<open>
  Claim C4. \<open>_map_percentiles\<close> maps a no-data pixel to 255, the classifier's own
  no-data value (which is not the \<open>VALUATION_NODATA\<close> of the raster it reads); a pixel
  that is not no-data and is exactly 0 to bucket 0; and every other pixel to the number
  of breakpoints that are at most its value, the breakpoints being in ascending order.
\<close>

theorem map_percentiles_pixel:
  assumes "sorted percentile_bins" "length percentile_bins < 256"
    and "i < length valuation_matrix"
  shows "(valuation_matrix ! i = raster_nodata \<longrightarrow>
            uint (map_percentiles raster_nodata percentile_bins valuation_matrix ! i)
              = BYTE_NODATA) \<and>
         (valuation_matrix ! i \<noteq> raster_nodata \<and> valuation_matrix ! i = 0 \<longrightarrow>
            unat (map_percentiles raster_nodata percentile_bins valuation_matrix ! i) = 0) \<and>
         (valuation_matrix ! i \<noteq> raster_nodata \<and> valuation_matrix ! i \<noteq> 0 \<longrightarrow>
            unat (map_percentiles raster_nodata percentile_bins valuation_matrix ! i)
              = length (filter (\<lambda>b. b \<le> valuation_matrix ! i) percentile_bins)) \<and>
         real_of_int BYTE_NODATA \<noteq> VALUATION_NODATA"
proof -
  have "length (filter (\<lambda>b. b \<le> valuation_matrix ! i) percentile_bins) < 256"
    using assms(2) length_filter_le [of "\<lambda>b. b \<le> valuation_matrix ! i" percentile_bins]
    by linarith
  then have "unat (word_of_nat (length (filter (\<lambda>b. b \<le> valuation_matrix ! i) percentile_bins))
                     :: 8 word)
             = length (filter (\<lambda>b. b \<le> valuation_matrix ! i) percentile_bins)"
    by (simp add: unat_of_nat)
  then show ?thesis
    using assms(1,3)
    by (simp add: nth_map_percentiles takeWhile_le_sorted BYTE_NODATA_def VALUATION_NODATA_def)
qed

text \<open>An instance: breakpoints 10, 20, 30, 40 and the pixels no-data, 0, 25 and 5.\<close>

theorem map_percentiles_pixel_witness:
  "uint (map_percentiles (- 99999) [10, 20, 30, 40] [- 99999, 0, 25, 5] ! 0) = 255 \<and>
   unat (map_percentiles (- 99999) [10, 20, 30, 40] [- 99999, 0, 25, 5] ! 1) = 0 \<and>
   unat (map_percentiles (- 99999) [10, 20, 30, 40] [- 99999, 0, 25, 5] ! 2) = 2 \<and>
   unat (map_percentiles (- 99999) [10, 20, 30, 40] [- 99999, 0, 25, 5] ! 3) = 0"
  using map_percentiles_pixel [of "[10, 20, 30, 40]" 0 "[- 99999, 0, 25, 5]" "- 99999"]
        map_percentiles_pixel [of "[10, 20, 30, 40]" 1 "[- 99999, 0, 25, 5]" "- 99999"]
        map_percentiles_pixel [of "[10, 20, 30, 40]" 2 "[- 99999, 0, 25, 5]" "- 99999"]
        map_percentiles_pixel [of "[10, 20, 30, 40]" 3 "[- 99999, 0, 25, 5]" "- 99999"]
  by (simp add: BYTE_NODATA_def)


text \<open>
  Claim C8 says that classifying the bucket of a value again, against the same
  breakpoints, gives the same bucket. It does not: with the breakpoints 10, 20, 30, 40
  the value 25 is in bucket 2, and 2 is below every breakpoint, so that it is in bucket 0.
\<close>

theorem map_percentiles_not_idempotent:
  "map_percentiles (- 99999) [10, 20, 30, 40]
     (map (\<lambda>w. real (unat w)) (map_percentiles (- 99999) [10, 20, 30, 40] [25]))
   \<noteq> map_percentiles (- 99999) [10, 20, 30, 40] [25]"
proof -
  have once: "map_percentiles (- 99999) [10, 20, 30, 40] [25] = [2]"
    by (simp add: map_percentiles_def Let_def digitize_def mask_and_def mask_not_def
          BYTE_NODATA_def)
  have twice: "map_percentiles (- 99999) [10, 20, 30, 40] [2] = [0]"
    by (simp add: map_percentiles_def Let_def digitize_def mask_and_def mask_not_def
          BYTE_NODATA_def)
  show ?thesis by (simp add: once twice)
qed

text \<open>
  Claim C8, amended. Let \<open>k\<close> be the bucket of a value that is neither 0 nor no-data,
  for ascending breakpoints (fewer than 255), and let \<open>k\<close> not be the no-data value.
  Classifying \<open>k\<close> again gives \<open>k\<close> exactly when \<open>k\<close> is 0 or exactly \<open>k\<close> breakpoints are
  at most \<open>k\<close>; in every other case it gives a different bucket.
\<close>

theorem map_percentiles_twice:
  assumes "sorted percentile_bins" "length percentile_bins < 255"
    and "v \<noteq> 0" "v \<noteq> raster_nodata"
    and "k = unat (map_percentiles raster_nodata percentile_bins [v] ! 0)"
    and "real k \<noteq> raster_nodata"
  shows "map_percentiles raster_nodata percentile_bins [real k] =
           map_percentiles raster_nodata percentile_bins [v]
         \<longleftrightarrow> k = 0 \<or> length (filter (\<lambda>b. b \<le> real k) percentile_bins) = k"
proof -
  have bound: "length (filter (\<lambda>b. b \<le> x) percentile_bins) < 256" for x
    using assms(2) length_filter_le [of "\<lambda>b. b \<le> x" percentile_bins] by linarith
  have un: "unat (word_of_nat (length (filter (\<lambda>b. b \<le> x) percentile_bins)) :: 8 word) =
            length (filter (\<lambda>b. b \<le> x) percentile_bins)" for x
    using bound [of x] by (simp add: unat_of_nat)
  have once: "map_percentiles raster_nodata percentile_bins [v] =
              [word_of_nat (length (filter (\<lambda>b. b \<le> v) percentile_bins))]"
    using assms(1,3,4)
    by (intro nth_equalityI) (simp_all add: nth_map_percentiles takeWhile_le_sorted)
  have k: "k = length (filter (\<lambda>b. b \<le> v) percentile_bins)"
    using assms(5) by (simp add: once un)
  have twice: "map_percentiles raster_nodata percentile_bins [real k] =
               [if k = 0 then 0
                else word_of_nat (length (filter (\<lambda>b. b \<le> real k) percentile_bins))]"
    using assms(1,6)
    by (intro nth_equalityI) (simp_all add: nth_map_percentiles takeWhile_le_sorted)
  have eq: "(word_of_nat (length (filter (\<lambda>b. b \<le> real k) percentile_bins)) :: 8 word) =
            word_of_nat k \<longleftrightarrow> length (filter (\<lambda>b. b \<le> real k) percentile_bins) = k"
    using un [of "real k"] un [of v] k by metis
  show ?thesis
    using eq by (auto simp: once twice k [symmetric])
qed

text \<open>An instance: with the breakpoints 1, 2, 3, 4 the value 2.5 stays in bucket 2.\<close>

theorem map_percentiles_twice_witness:
  "map_percentiles (- 99999) [1, 2, 3, 4] [2] = map_percentiles (- 99999) [1, 2, 3, 4] [5 / 2]"
proof -
  have once: "map_percentiles (- 99999) [1, 2, 3, 4] [5 / 2] = [2]"
    by (simp add: map_percentiles_def Let_def digitize_def mask_and_def mask_not_def
          BYTE_NODATA_def)
  show ?thesis
    using map_percentiles_twice [of "[1, 2, 3, 4]" "5 / 2" "- 99999" 2]
    by (simp add: once)
qed

subsection \<open>Runs, merge and breakpoints\<close>

lemma length_spill_runs:
  "spill_runs raster_nodata blocks n_elements iterators =
     (n_elements + length (concat (map (eligible_pixels raster_nodata) blocks)),
      iterators @ map sort (filter (\<lambda>r. r \<noteq> []) (map (eligible_pixels raster_nodata) blocks)))"
  by (induction blocks arbitrary: n_elements iterators) (auto simp: Let_def)

lemma least_run_less: "live \<noteq> [] \<Longrightarrow> least_run live < length live"
  by (induction live rule: least_run.induct) (auto simp: Let_def)

lemma least_run_le: "r \<in> set live \<Longrightarrow> hd (live ! least_run live) \<le> hd r"
proof (induction live arbitrary: r rule: least_run.induct)
  case 1
  then show ?case by simp
next
  case (2 r0)
  then show ?case by simp
next
  case (3 r0 r1 rs)
  let ?j = "least_run (r1 # rs)"
  show ?case
  proof (cases "hd r0 \<le> hd ((r1 # rs) ! ?j)")
    case True
    have "hd r0 \<le> hd r"
    proof (cases "r = r0")
      case False
      with "3.prems" have "r \<in> set (r1 # rs)" by auto
      from "3.IH" [OF this] True show ?thesis by linarith
    qed simp
    with True show ?thesis by (simp add: Let_def)
  next
    case False
    have "hd ((r1 # rs) ! ?j) \<le> hd r"
    proof (cases "r = r0")
      case True
      with False show ?thesis by simp
    next
      case False
      with "3.prems" have "r \<in> set (r1 # rs)" by auto
      from "3.IH" [OF this] show ?thesis .
    qed
    with False show ?thesis by (simp add: Let_def)
  qed
qed

lemma mset_concat_filter_nonempty:
  "mset (concat (filter (\<lambda>r. r \<noteq> []) runs)) = mset (concat runs)"
  by (induction runs) auto

lemma mset_concat_update_tl:
  assumes "j < length live" "live ! j \<noteq> []"
  shows "mset (concat live) = add_mset (hd (live ! j)) (mset (concat (live[j := tl (live ! j)])))"
proof -
  obtain x xs where c: "live ! j = x # xs" using assms(2) by (cases "live ! j") auto
  have "live = take j live @ (x # xs) # drop (Suc j) live"
    using assms(1) c by (metis id_take_nth_drop)
  moreover have "live[j := tl (live ! j)] = take j live @ xs # drop (Suc j) live"
    using assms(1) c by (simp add: upd_conv_take_nth_drop)
  ultimately show ?thesis
    using c by (metis (no_types, lifting) concat.simps(2) concat_append list.sel(1) mset.simps(2)
        mset_append union_mset_add_mset_left union_mset_add_mset_right)
qed

lemma mset_kway_merge: "mset (kway_merge runs) = mset (concat runs)"
proof (induction runs rule: kway_merge.induct)
  case (1 runs)
  let ?live = "filter (\<lambda>r. r \<noteq> []) runs"
  let ?j = "least_run ?live"
  show ?case
  proof (cases "?live = []")
    case True
    then have "mset (concat ?live) = {#}" by simp
    then have "mset (concat runs) = {#}" by (simp only: mset_concat_filter_nonempty)
    with True show ?thesis by (subst kway_merge.simps) simp
  next
    case False
    then have j: "?j < length ?live" by (rule least_run_less)
    then have "?live ! ?j \<in> set ?live" by (rule nth_mem)
    then have ne: "?live ! ?j \<noteq> []" by simp
    have "mset (kway_merge runs) =
          add_mset (hd (?live ! ?j)) (mset (kway_merge (?live[?j := tl (?live ! ?j)])))"
      using False by (subst kway_merge.simps) (simp add: Let_def)
    also have "\<dots> = add_mset (hd (?live ! ?j)) (mset (concat (?live[?j := tl (?live ! ?j)])))"
      using "1.IH" [OF refl False refl] by simp
    also have "\<dots> = mset (concat ?live)"
      using mset_concat_update_tl [OF j ne] by simp
    finally show ?thesis by (simp only: mset_concat_filter_nonempty)
  qed
qed


lemma sorted_hd_le: "sorted r \<Longrightarrow> y \<in> set r \<Longrightarrow> hd r \<le> (y::real)"
  by (cases r) auto

lemma sorted_kway_merge:
  "\<forall>r \<in> set runs. sorted r \<Longrightarrow> sorted (kway_merge runs)"
proof (induction runs rule: kway_merge.induct)
  case (1 runs)
  let ?live = "filter (\<lambda>r. r \<noteq> []) runs"
  let ?j = "least_run ?live"
  let ?next = "?live[?j := tl (?live ! ?j)]"
  show ?case
  proof (cases "?live = []")
    case True
    then show ?thesis by (subst kway_merge.simps) simp
  next
    case False
    then have j: "?j < length ?live" by (rule least_run_less)
    have srt: "\<forall>r \<in> set ?live. sorted r" using "1.prems" by simp
    have "?live ! ?j \<in> set ?live" using j by (rule nth_mem)
    with srt have "sorted (?live ! ?j)" by blast
    then have "sorted (tl (?live ! ?j))" by (rule sorted_tl)
    then have "\<forall>r \<in> set ?next. sorted r"
      using srt set_update_subset_insert [of ?live ?j "tl (?live ! ?j)"] by auto
    then have rest: "sorted (kway_merge ?next)"
      by (rule "1.IH" [OF refl False refl])
    have "hd (?live ! ?j) \<le> y" if "y \<in> set (kway_merge ?next)" for y
    proof -
      from that have "y \<in># mset (concat ?next)" by (simp add: mset_kway_merge [symmetric])
      then have "y \<in> set (concat ?next)" by simp
      then obtain r where r: "r \<in> set ?next" "y \<in> set r" by auto
      from r(1) set_update_subset_insert [of ?live ?j "tl (?live ! ?j)"]
      consider "r = tl (?live ! ?j)" | "r \<in> set ?live" by auto
      then show ?thesis
      proof cases
        case 1
        with r(2) have "y \<in> set (tl (?live ! ?j))" by simp
        then have "y \<in> set (?live ! ?j)" by (cases "?live ! ?j") auto
        moreover note \<open>sorted (?live ! ?j)\<close>
        ultimately show ?thesis by (rule sorted_hd_le [rotated])
      next
        case 2
        then have "hd (?live ! ?j) \<le> hd r" by (rule least_run_le)
        moreover have "hd r \<le> y" using srt 2 r(2) by (simp add: sorted_hd_le)
        ultimately show ?thesis by linarith
      qed
    qed
    then have "sorted (hd (?live ! ?j) # kway_merge ?next)"
      using rest by simp
    with False show ?thesis by (subst kway_merge.simps) (simp add: Let_def)
  qed
qed

lemma kway_merge_sort:
  assumes "\<forall>r \<in> set runs. sorted r"
  shows "kway_merge runs = sort (concat runs)"
  using mset_kway_merge [of runs] sorted_kway_merge [OF assms]
  by (metis properties_for_sort)

lemma mset_concat_map_sort: "mset (concat (map sort rs)) = mset (concat rs)"
  by (induction rs) auto

lemma merged_runs:
  "kway_merge (map sort (filter (\<lambda>r. r \<noteq> []) (map (eligible_pixels raster_nodata) blocks))) =
   sort (concat (map (eligible_pixels raster_nodata) blocks))"
proof -
  let ?rs = "filter (\<lambda>r. r \<noteq> []) (map (eligible_pixels raster_nodata) blocks)"
  have "kway_merge (map sort ?rs) = sort (concat (map sort ?rs))"
    by (rule kway_merge_sort) auto
  also have "\<dots> = sort (concat (map (eligible_pixels raster_nodata) blocks))"
    by (rule properties_for_sort)
       (simp_all add: mset_concat_map_sort mset_concat_filter_nonempty)
  finally show ?thesis .
qed

lemma percentile_loop_picks:
  assumes "sorted_wrt (<) (nxt # ords)" "idx \<le> nxt"
    and "\<forall>r \<in> set (nxt # ords). r < idx + length vs"
  shows "percentile_loop vs idx nxt ords acc = acc @ map (\<lambda>r. vs ! (r - idx)) (nxt # ords)"
  using assms
proof (induction vs arbitrary: idx nxt ords acc)
  case Nil
  then show ?case by simp
next
  case (Cons v rest)
  have shift: "(v # rest) ! (r - idx) = rest ! (r - Suc idx)" if "idx < r" for r
  proof -
    from that have "r - idx = Suc (r - Suc idx)" by simp
    then show ?thesis by simp
  qed
  show ?case
  proof (cases "idx = nxt")
    case False
    with Cons.prems have lt: "idx < nxt" by simp
    then have "\<forall>r \<in> set (nxt # ords). idx < r" using Cons.prems(1) by auto
    then have nth: "\<forall>r \<in> set (nxt # ords). (v # rest) ! (r - idx) = rest ! (r - Suc idx)"
      using shift by simp
    have "percentile_loop rest (Suc idx) nxt ords acc =
          acc @ map (\<lambda>r. rest ! (r - Suc idx)) (nxt # ords)"
      using Cons.prems lt by (intro Cons.IH) auto
    with False nth show ?thesis by (simp cong: map_cong)
  next
    case True
    show ?thesis
    proof (cases ords)
      case Nil
      with True show ?thesis by simp
    next
      case (Cons r rs)
      with Cons.prems(1) True have lt: "idx < r" by simp
      then have "\<forall>r' \<in> set (r # rs). idx < r'" using Cons.prems(1) Cons by auto
      then have nth: "\<forall>r' \<in> set (r # rs). (v # rest) ! (r' - idx) = rest ! (r' - Suc idx)"
        using shift by simp
      have "percentile_loop rest (Suc idx) r rs (acc @ [v]) =
            (acc @ [v]) @ map (\<lambda>r. rest ! (r - Suc idx)) (r # rs)"
        using Cons.prems Cons lt by (intro Cons.IH) auto
      with True Cons nth show ?thesis by (simp cong: map_cong)
    qed
  qed
qed

lemma ceiling_div_4: "- (- k div 4) = (k + 3) div (4::int)" by presburger
lemma ceiling_div_2: "- (- k div 2) = (k + 1) div (2::int)" by presburger
lemma ceiling_3_div_4: "- (- (3 * k) div 4) = (3 * k + 3) div (4::int)" by presburger

lemma rank_ordinals_of_eq:
  "rank_ordinals_of n = [0, (n + 3) div 4, (n + 1) div 2, (3 * n + 3) div 4]"
proof -
  have "\<lceil>real n / 4\<rceil> = - (- int n div 4)"
    using ceiling_divide_eq_div [of "int n" 4, where ?'a = real] by simp
  then have a: "\<lceil>real n / 4\<rceil> = int ((n + 3) div 4)"
    by (simp add: ceiling_div_4 zdiv_int)
  have "\<lceil>real n / 2\<rceil> = - (- int n div 2)"
    using ceiling_divide_eq_div [of "int n" 2, where ?'a = real] by simp
  then have b: "\<lceil>real n / 2\<rceil> = int ((n + 1) div 2)"
    by (simp add: ceiling_div_2 zdiv_int)
  have "\<lceil>3 * real n / 4\<rceil> = - (- (3 * int n) div 4)"
    using ceiling_divide_eq_div [of "3 * int n" 4, where ?'a = real] by simp
  then have c: "\<lceil>3 * real n / 4\<rceil> = int ((3 * n + 3) div 4)"
    by (simp add: ceiling_3_div_4 zdiv_int)
  show ?thesis by (simp add: rank_ordinals_of_def a b c)
qed

lemma rank_1_pos: "4 \<le> n \<Longrightarrow> 0 < (n + 3) div (4::nat)" by presburger
lemma rank_1_2: "4 \<le> n \<Longrightarrow> (n + 3) div 4 < (n + 1) div (2::nat)" by presburger
lemma rank_2_3: "4 \<le> n \<Longrightarrow> (n + 1) div 2 < (3 * n + 3) div (4::nat)" by presburger
lemma rank_3_n: "4 \<le> n \<Longrightarrow> (3 * n + 3) div 4 < (n::nat)" by presburger

lemma rank_ordinals_of_increasing:
  assumes "4 \<le> n"
  shows "sorted_wrt (<) (rank_ordinals_of n)" and "\<forall>r \<in> set (rank_ordinals_of n). r < n"
proof -
  note f = rank_1_pos [OF assms] rank_1_2 [OF assms] rank_2_3 [OF assms] rank_3_n [OF assms]
  from f show "sorted_wrt (<) (rank_ordinals_of n)"
    unfolding rank_ordinals_of_eq by (simp del: div_less_iff_less_mult)
  from f have "0 < n" "(n + 3) div 4 < n" "(n + 1) div 2 < n" by linarith+
  with f show "\<forall>r \<in> set (rank_ordinals_of n). r < n"
    unfolding rank_ordinals_of_eq by (simp del: div_less_iff_less_mult)
qed


lemma percentile_breakpoints_eq:
  "percentile_breakpoints raster_nodata blocks =
     (let population = sort (concat (map (eligible_pixels raster_nodata) blocks));
          rank_ordinals = rank_ordinals_of (length population)
      in percentile_loop population 0 (hd rank_ordinals) (tl rank_ordinals) [])"
  by (simp add: percentile_breakpoints_def length_spill_runs merged_runs Let_def)

lemma percentile_breakpoints_ranks:
  assumes "4 \<le> length (concat (map (eligible_pixels raster_nodata) blocks))"
  shows "percentile_breakpoints raster_nodata blocks =
         map (\<lambda>r. sort (concat (map (eligible_pixels raster_nodata) blocks)) ! r)
           (rank_ordinals_of (length (concat (map (eligible_pixels raster_nodata) blocks))))"
proof -
  let ?pop = "sort (concat (map (eligible_pixels raster_nodata) blocks))"
  let ?rs = "rank_ordinals_of (length ?pop)"
  have n: "4 \<le> length ?pop" using assms by simp
  have ne: "?rs = hd ?rs # tl ?rs" by (simp add: rank_ordinals_of_eq)
  have "percentile_loop ?pop 0 (hd ?rs) (tl ?rs) [] =
        [] @ map (\<lambda>r. ?pop ! (r - 0)) (hd ?rs # tl ?rs)"
  proof (rule percentile_loop_picks)
    show "sorted_wrt (<) (hd ?rs # tl ?rs)"
      using rank_ordinals_of_increasing(1) [OF n] ne by simp
    show "\<forall>r \<in> set (hd ?rs # tl ?rs). r < 0 + length ?pop"
      using rank_ordinals_of_increasing(2) [OF n] ne by simp
  qed simp
  with ne have "percentile_loop ?pop 0 (hd ?rs) (tl ?rs) [] = map (\<lambda>r. ?pop ! r) ?rs"
    by simp
  then show ?thesis by (simp add: percentile_breakpoints_eq Let_def)
qed

text \<open>
  Claim C3 says that the breakpoints of the streaming algorithm equal, for every raster,
  the values picked from the sorted population at the ranks \<open>ceil(q * N)\<close>. With two
  eligible pixels the ranks are 0, 1, 1 and 2: the loop records the values at ranks 0 and
  1 once each and ends, while the cross-check picks rank 1 twice and finds no value at
  rank 2.
\<close>

theorem percentile_breakpoints_two_pixels:
  "map Inr (percentile_breakpoints (- 99999) [[1, 2]]) \<noteq> in_memory_breakpoints (- 99999) [[1, 2]]"
proof -
  have e: "eligible_pixels (- 99999) [1, 2] = [1, 2]"
    by (simp add: eligible_pixels_def mask_and_def)
  have "percentile_breakpoints (- 99999) [[1, 2]] = [1, 2]"
    by (simp add: percentile_breakpoints_eq e rank_ordinals_of_eq)
  moreover have "in_memory_breakpoints (- 99999) [[1, 2]] = [Inr 1, Inr 2, Inr 2, Inl IndexError]"
    by (simp add: in_memory_breakpoints_def e rank_ordinals_of_eq)
  ultimately show ?thesis by simp
qed

lemma percentile_loop_prefix:
  "\<exists>ys. percentile_loop vs idx nxt ords acc = acc @ ys"
proof (induction vs arbitrary: idx nxt ords acc)
  case Nil
  then show ?case by simp
next
  case (Cons v rest)
  show ?case
  proof (cases "idx = nxt")
    case False
    with Cons [of "idx + 1" nxt ords acc] show ?thesis by simp
  next
    case True
    show ?thesis
    proof (cases ords)
      case Nil
      with True show ?thesis by simp
    next
      case (Cons r rs)
      from Cons.IH [of "idx + 1" r rs "acc @ [v]"]
      obtain ys where "percentile_loop rest (idx + 1) r rs (acc @ [v]) = (acc @ [v]) @ ys"
        by blast
      with True Cons show ?thesis by simp
    qed
  qed
qed

lemma percentile_breakpoints_first:
  assumes "0 < length (concat (map (eligible_pixels raster_nodata) blocks))"
  shows "percentile_breakpoints raster_nodata blocks ! 0 =
         Min (set (concat (map (eligible_pixels raster_nodata) blocks)))"
proof -
  let ?pop = "concat (map (eligible_pixels raster_nodata) blocks)"
  have "0 < length (sort ?pop)" using assms by (simp only: length_sort)
  then obtain x xs where c: "sort ?pop = x # xs" by (cases "sort ?pop") simp_all
  have "sorted (x # xs)" using sorted_sort [of ?pop] c by simp
  then have "\<forall>y \<in> set (x # xs). x \<le> y" by auto
  moreover have "set (x # xs) = set ?pop" using set_sort [of "\<lambda>x. x" ?pop] c by simp
  ultimately have m: "Min (set ?pop) = x" by (intro Min_eqI) auto
  obtain r rs where rk: "tl (rank_ordinals_of (length ?pop)) = r # rs"
    by (simp add: rank_ordinals_of_eq)
  have hd0: "hd (rank_ordinals_of (length ?pop)) = 0"
    by (simp add: rank_ordinals_of_eq)
  obtain ys where "percentile_loop xs (0 + 1) r rs ([] @ [x]) = ([] @ [x]) @ ys"
    using percentile_loop_prefix [of xs "0 + 1" r rs "[] @ [x]"] by blast
  then have ys: "percentile_loop (x # xs) 0 0 (r # rs) [] = x # ys" by simp
  have "percentile_breakpoints raster_nodata blocks =
        percentile_loop (sort ?pop) 0 (hd (rank_ordinals_of (length ?pop)))
          (tl (rank_ordinals_of (length ?pop))) []"
    by (simp only: percentile_breakpoints_eq Let_def length_sort)
  also have "\<dots> = percentile_loop (x # xs) 0 0 (r # rs) []"
    by (simp only: c hd0 rk)
  finally have "percentile_breakpoints raster_nodata blocks = x # ys"
    by (simp only: ys)
  with m show ?thesis by simp
qed

text \<open>
  Claim C3, amended. For every raster with at least four eligible pixels (non-zero and
  not no-data), the breakpoints of the streaming algorithm (a sorted run for every block,
  one merge of the runs, a value recorded when the 0-based counter reaches the next rank
  \<open>ceil(q * N)\<close>, \<open>q\<close> in 0, 0.25, 0.50, 0.75) equal the values of the population sorted
  in memory at these ranks. Whenever a pixel is eligible, the first breakpoint, of rank
  0, is the smallest eligible value.
\<close>

theorem percentile_breakpoints_in_memory:
  fixes raster_nodata blocks
  defines "population \<equiv> concat (map (eligible_pixels raster_nodata) blocks)"
  shows "(4 \<le> length population \<longrightarrow>
            map Inr (percentile_breakpoints raster_nodata blocks) =
              in_memory_breakpoints raster_nodata blocks) \<and>
         (0 < length population \<longrightarrow>
            percentile_breakpoints raster_nodata blocks ! 0 = Min (set population))"
proof -
  have "map Inr (percentile_breakpoints raster_nodata blocks) =
        in_memory_breakpoints raster_nodata blocks" if n: "4 \<le> length population"
  proof -
    from n have n': "4 \<le> length (sort population)" by simp
    show ?thesis
      using rank_ordinals_of_increasing(2) [OF n'] n
      by (simp add: percentile_breakpoints_ranks in_memory_breakpoints_def Let_def
            population_def)
  qed
  then show ?thesis
    using percentile_breakpoints_first [of raster_nodata blocks]
    by (simp add: population_def)
qed

text \<open>An instance: two blocks, five eligible pixels, ranks 0, 2, 3 and 4.\<close>

theorem percentile_breakpoints_in_memory_witness:
  "map Inr (percentile_breakpoints (- 99999) [[5, 0, 3], [- 99999, 1, 4, 2]]) =
     in_memory_breakpoints (- 99999) [[5, 0, 3], [- 99999, 1, 4, 2]] \<and>
   percentile_breakpoints (- 99999) [[5, 0, 3], [- 99999, 1, 4, 2]] ! 0 = 1"
proof -
  have e: "concat (map (eligible_pixels (- 99999)) [[5, 0, 3], [- 99999, 1, 4, 2]]) =
           [5, 3, 1, 4, 2]"
    by (simp add: eligible_pixels_def mask_and_def)
  have m: "Min (set [5, 3, 1, 4, 2 :: real]) = 1" by simp
  show ?thesis
    using percentile_breakpoints_in_memory [of "- 99999" "[[5, 0, 3], [- 99999, 1, 4, 2]]"]
    unfolding e m by simp
qed

subsection \<open>Viewpoints over a DEM without a no-data value\<close>

text \<open>
  Claim C10. When the DEM defines no no-data value, \<open>_viewpoint_over_nodata\<close> returns
  \<open>False\<close> for every viewpoint (it raises nothing and reads no pixel), so that every
  viewpoint inside the bounding box of the DEM is accepted.
\<close>

theorem viewpoint_over_nodata_undefined:
  assumes "band_nodata dem = None"
  shows "viewpoint_over_nodata viewpoint dem = Inr False \<and>
         (viewpoint_within_raster viewpoint dem \<longrightarrow> check_viewpoint viewpoint dem = Inr Accepted)"
  using assms by (simp add: viewpoint_over_nodata_def check_viewpoint_def)

text \<open>An instance: a DEM with a zero pixel width, where the division would raise.\<close>

theorem viewpoint_over_nodata_undefined_witness:
  "viewpoint_over_nodata (5, 5)
     \<lparr>band_nodata = None, band_geotransform = [0, 0, 0, 10, 0, 0],
       band_read = (\<lambda>x y. None), band_bounding_box = (0, 0, 10, 10)\<rparr> = Inr False \<and>
   check_viewpoint (5, 5)
     \<lparr>band_nodata = None, band_geotransform = [0, 0, 0, 10, 0, 0],
       band_read = (\<lambda>x y. None), band_bounding_box = (0, 0, 10, 10)\<rparr> = Inr Accepted"
  using viewpoint_over_nodata_undefined
          [of "\<lparr>band_nodata = None, band_geotransform = [0, 0, 0, 10, 0, 0],
                band_read = (\<lambda>x y. None), band_bounding_box = (0, 0, 10, 10)\<rparr>" "(5, 5)"]
  by (simp add: viewpoint_within_raster_def)

subsection \<open>Temporary directories\<close>

lemma first_raised_None_iff: "first_raised calls = None \<longleftrightarrow> (\<forall>c \<in> set calls. c = None)"
  by (induction calls rule: first_raised.induct) auto

text \<open>
  Claim C7 says that the temporary directory is removed on every exit path. It is not:
  when \<open>warp_raster\<close> raises in \<open>_clip_and_mask_dem\<close>, or the merge raises in
  \<open>_calculate_visual_quality\<close>, the function is left before \<open>shutil.rmtree\<close> and the
  directory stays.
\<close>

theorem temp_dir_left_on_exception:
  "clip_and_mask_dem
     \<lparr>clip_mkdtemp = None, clip_get_vector_info = None, clip_get_raster_info = None,
       clip_warp_raster = Some OtherError, clip_new_raster_from_base = None,
       clip_rasterize = None, clip_raster_calculator = None, clip_rmtree = None\<rparr>
     ''intermediate/clip_dem1'' {''intermediate''}
   = (Some OtherError, {''intermediate/clip_dem1'', ''intermediate''}) \<and>
   calculate_visual_quality
     \<lparr>quality_get_raster_info = None, quality_makedirs = None, quality_mkdtemp = None,
       quality_spill = None, quality_merge = Some OtherError, quality_rmtree = None,
       quality_raster_calculator = None\<rparr>
     (- 99999) [[1, 2]] ''intermediate'' ''intermediate/visual_quality1'' {''intermediate''}
   = (Inl OtherError, {''intermediate/visual_quality1'', ''intermediate''})"
  by (simp add: clip_and_mask_dem_def calculate_visual_quality_def)

text \<open>
  Claim C7, amended. Once \<open>mkdtemp\<close> has made the temporary directory, the directory is
  still there when the function is left exactly when an exception was raised between
  \<open>mkdtemp\<close> and \<open>shutil.rmtree\<close> (for the classifier: while the runs are saved or
  merged) or \<open>shutil.rmtree\<close> itself failed. So the directory is removed on the path
  without exception, and in the classifier also when only the classification after the
  merge raises.
\<close>

theorem temp_dir_removed_iff:
  assumes "clip_mkdtemp cc = None"
    and "quality_get_raster_info qc = None" "quality_makedirs qc = None"
    and "quality_mkdtemp qc = None"
  shows "(temp_dir \<in> snd (clip_and_mask_dem cc temp_dir fs) \<longleftrightarrow>
            first_raised [clip_get_vector_info cc, clip_get_raster_info cc, clip_warp_raster cc,
              clip_new_raster_from_base cc, clip_rasterize cc, clip_raster_calculator cc] \<noteq> None
            \<or> clip_rmtree cc \<noteq> None) \<and>
         (temp_dir \<in> snd (calculate_visual_quality qc raster_nodata blocks working_dir
                             temp_dir fs) \<longleftrightarrow>
            first_raised [quality_spill qc, quality_merge qc] \<noteq> None
            \<or> quality_rmtree qc \<noteq> None)"
proof -
  have rm: "temp_dir \<in> snd (try_rmtree r temp_dir (insert temp_dir fs')) \<longleftrightarrow> r \<noteq> None"
    for r fs'
    by (cases r) (auto simp: try_rmtree_def)
  have "temp_dir \<in> snd (clip_and_mask_dem cc temp_dir fs) \<longleftrightarrow>
            first_raised [clip_get_vector_info cc, clip_get_raster_info cc, clip_warp_raster cc,
              clip_new_raster_from_base cc, clip_rasterize cc, clip_raster_calculator cc] \<noteq> None
            \<or> clip_rmtree cc \<noteq> None"
    using assms(1) rm [of "clip_rmtree cc" fs]
    by (cases "first_raised [clip_get_vector_info cc, clip_get_raster_info cc,
                  clip_warp_raster cc, clip_new_raster_from_base cc, clip_rasterize cc,
                  clip_raster_calculator cc]")
       (simp_all add: clip_and_mask_dem_def)
  moreover have "temp_dir \<in> snd (calculate_visual_quality qc raster_nodata blocks working_dir
                             temp_dir fs) \<longleftrightarrow>
            first_raised [quality_spill qc, quality_merge qc] \<noteq> None
            \<or> quality_rmtree qc \<noteq> None"
  proof (cases "first_raised [quality_spill qc, quality_merge qc]")
    case (Some e)
    with assms(2-4) show ?thesis by (simp add: calculate_visual_quality_def)
  next
    case None
    obtain r fs' where t: "try_rmtree (quality_rmtree qc) temp_dir
                             (insert temp_dir (insert working_dir fs)) = (r, fs')"
      by (cases "try_rmtree (quality_rmtree qc) temp_dir
                   (insert temp_dir (insert working_dir fs))")
    from rm [of "quality_rmtree qc" "insert working_dir fs"] t
    have "temp_dir \<in> fs' \<longleftrightarrow> quality_rmtree qc \<noteq> None" by simp
    with assms(2-4) None t show ?thesis
      by (simp add: calculate_visual_quality_def split: option.splits)
  qed
  ultimately show ?thesis by simp
qed

text \<open>An instance: nothing raises, and both directories are removed.\<close>

theorem temp_dir_removed_iff_witness:
  "''tmp'' \<notin> snd (clip_and_mask_dem
     \<lparr>clip_mkdtemp = None, clip_get_vector_info = None, clip_get_raster_info = None,
       clip_warp_raster = None, clip_new_raster_from_base = None,
       clip_rasterize = None, clip_raster_calculator = None, clip_rmtree = None\<rparr>
     ''tmp'' {}) \<and>
   ''tmp'' \<notin> snd (calculate_visual_quality
     \<lparr>quality_get_raster_info = None, quality_makedirs = None, quality_mkdtemp = None,
       quality_spill = None, quality_merge = None, quality_rmtree = None,
       quality_raster_calculator = None\<rparr>
     (- 99999) [[1, 2]] ''work'' ''tmp'' {})"
  using temp_dir_removed_iff
          [of "\<lparr>clip_mkdtemp = None, clip_get_vector_info = None, clip_get_raster_info = None,
                 clip_warp_raster = None, clip_new_raster_from_base = None,
                 clip_rasterize = None, clip_raster_calculator = None, clip_rmtree = None\<rparr>"
              "\<lparr>quality_get_raster_info = None, quality_makedirs = None,
                 quality_mkdtemp = None, quality_spill = None, quality_merge = None,
                 quality_rmtree = None, quality_raster_calculator = None\<rparr>"
              "''tmp''" "{}" "- 99999" "[[1, 2]]" "''work''"]
  by simp

subsection \<open>An unknown valuation function\<close>

lemma graph_constructed_viewshed_tasks [simp]:
  "graph_constructed (viewshed_tasks feature_index n st) = graph_constructed st"
  by (induction feature_index n st rule: viewshed_tasks.induct) (simp_all add: add_task_def)

lemma execute_recognized:
  assumes "startswith (arg_valuation_function a) ''linear''"
  shows "fst (execute a dem_raster_info n_viewpoints st) = Inr () \<and>
         graph_constructed (snd (execute a dem_raster_info n_viewpoints st)) \<and>
         tasks_added (snd (execute a dem_raster_info n_viewpoints st)) \<noteq> []"
  using assms by (simp add: execute_def Let_def add_task_def)

text \<open>
  Claim C9. When the valuation function starts with none of \<open>linear\<close>, \<open>logarithmic\<close>
  and \<open>exponential\<close>, \<open>execute\<close> raises \<open>ValueError\<close> and has done nothing before: no
  directory is made, the task graph is not constructed and no task is added.
\<close>

theorem execute_unknown_valuation_function:
  assumes "\<not> startswith (arg_valuation_function a) ''linear''"
    and "\<not> startswith (arg_valuation_function a) ''logarithmic''"
    and "\<not> startswith (arg_valuation_function a) ''exponential''"
  shows "execute a dem_raster_info n_viewpoints initial_progress = (Inl ValueError, initial_progress)
         \<and> \<not> graph_constructed (snd (execute a dem_raster_info n_viewpoints initial_progress))
         \<and> tasks_added (snd (execute a dem_raster_info n_viewpoints initial_progress)) = []
         \<and> directories_made (snd (execute a dem_raster_info n_viewpoints initial_progress)) = []"
  using assms by (simp add: execute_def Let_def initial_progress_def)

text \<open>An instance: the valuation function \<open>quadratic\<close>.\<close>

theorem execute_unknown_valuation_function_witness:
  "execute
     \<lparr>arg_workspace_dir = ''ws'', arg_valuation_function = ''quadratic'', arg_a_coef = 1,
       arg_b_coef = 0, arg_max_valuation_radius = 1000\<rparr>
     \<lparr>geotransform = [0, 1, 0, 0, 0, - 1], mean_pixel_size = 1, linear_units = 1,
       nodata_value = - 1\<rparr> 3 initial_progress
   = (Inl ValueError, initial_progress)"
  using execute_unknown_valuation_function
          [of "\<lparr>arg_workspace_dir = ''ws'', arg_valuation_function = ''quadratic'',
                 arg_a_coef = 1, arg_b_coef = 0, arg_max_valuation_radius = 1000\<rparr>"
              "\<lparr>geotransform = [0, 1, 0, 0, 0, - 1], mean_pixel_size = 1, linear_units = 1,
                 nodata_value = - 1\<rparr>" 3]
  by (simp add: startswith_def)

end
